theory Spec2Isabelle
  imports Main "HOL-Library.Sublist" "HOL-Library.Char_ord" "HOL-Library.List_Lexorder"
begin

section \<open>Exceptions\<close>

text \<open>
  Exceptions of the modelled code. \<^verbatim>\<open>TypeError\<close> is what JavaScript raises on a
  property read of \<^verbatim>\<open>undefined\<close> and on an assignment to a \<^verbatim>\<open>const\<close>;
  \<^verbatim>\<open>Interrupted\<close> is the error of \<^verbatim>\<open>_raiseIfStoppedOrPaused\<close>;
  \<^verbatim>\<open>SyntaxError\<close> is raised by the \<^verbatim>\<open>RegExp\<close> constructor.
\<close>

datatype error = TypeError | Interrupted | SyntaxError

section \<open>DOM data model (dom/views.js, dom/history\_tree\_processor/view.js)\<close>

text \<open>
  A JavaScript string is a \<^typ>\<open>string\<close>; an object used as a dictionary is an
  association list in the order in which \<^verbatim>\<open>Object.entries\<close> enumerates it.
  \<^verbatim>\<open>HashedDomElement\<close> holds the three hash components.
\<close>

record HashedDomElement =
  branchPathHash :: string
  attributesHash :: string
  xpathHash :: string

text \<open>
  The scalar fields of \<^verbatim>\<open>DOMElementNode\<close>. The coordinate sets and the
  viewport info are carried through by the source and never inspected by the functions
  modelled here; they are left out.
\<close>

record ElementInfo =
  isVisible :: bool
  tagName :: string
  xpath :: string
  attributes :: "(string \<times> string) list"
  isInteractive :: bool
  isTopElement :: bool
  isInViewport :: bool
  shadowRoot :: bool
  highlightIndex :: "nat option"

datatype DOMNode =
    DOMTextNode bool string
  | DOMElementNode ElementInfo "DOMNode list"

subsection \<open>Rendering numbers and joining strings\<close>

definition digit_char :: "nat \<Rightarrow> char" where
  "digit_char d = ''0123456789'' ! d"

function string_of_nat :: "nat \<Rightarrow> string" where
  "string_of_nat n =
     (if n < 10 then [digit_char n] else string_of_nat (n div 10) @ [digit_char (n mod 10)])"
  by pat_completeness auto
termination
  by (relation "measure id") auto

declare string_of_nat.simps [simp del]

fun join :: "string \<Rightarrow> string list \<Rightarrow> string" where
  "join sep [] = []"
| "join sep [x] = x"
| "join sep (x # y # ys) = x @ sep @ join sep (y # ys)"

subsection \<open>The \<^verbatim>\<open>hash\<close> getter of \<^verbatim>\<open>DOMElementNode\<close> (dom/views.js, 180--191)\<close>

definition hashDomElement :: "ElementInfo \<Rightarrow> DOMNode list \<Rightarrow> HashedDomElement" where
  "hashDomElement e cs =
     \<lparr> branchPathHash = ''branch-'' @ tagName e @ ''-'' @ string_of_nat (length cs),
       attributesHash = ''attr-'' @ join ''-'' (map fst (attributes e)),
       xpathHash = ''xpath-'' @ xpath e \<rparr>"

text \<open>Only element nodes have the getter; on a text node \<^verbatim>\<open>e.hash\<close> is undefined.\<close>

fun hash :: "DOMNode \<Rightarrow> HashedDomElement option" where
  "hash (DOMElementNode e cs) = Some (hashDomElement e cs)"
| "hash (DOMTextNode v t) = None"

section \<open>History tree processor (dom/history\_tree\_processor/service.js)\<close>

text \<open>
  \<^verbatim>\<open>DOMHistoryElement\<close> (view.js); the coordinate sets and the viewport info are
  copied by the source and never inspected here.
\<close>

record DOMHistoryElement =
  histTagName :: string
  histXpath :: string
  histHighlightIndex :: "nat option"
  entireParentBranchPath :: "string list"
  histAttributes :: "(string \<times> string) list"
  histShadowRoot :: bool
  cssSelector :: "string option"

text \<open>
  An element of a tree is addressed by its position, the list of child indices that
  leads to it from the root; the chain of \<^verbatim>\<open>parent\<close> references of the element is
  the chain of nodes at the prefixes of its position.
\<close>

fun nodeAt :: "DOMNode \<Rightarrow> nat list \<Rightarrow> DOMNode option" where
  "nodeAt node [] = Some node"
| "nodeAt (DOMElementNode e cs) (k # ks) = (if k < length cs then nodeAt (cs ! k) ks else None)"
| "nodeAt (DOMTextNode v t) (k # ks) = None"

text \<open>The entry \<^verbatim>\<open>`${tagName}:${highlightIndex !== null ? highlightIndex : 'null'}`\<close>.\<close>

definition branchEntry :: "ElementInfo \<Rightarrow> string" where
  "branchEntry e =
     tagName e @ '':'' @ (case highlightIndex e of None \<Rightarrow> ''null'' | Some i \<Rightarrow> string_of_nat i)"

text \<open>
  \<open>_getParentBranchPath\<close> of the element at a position: the entries of the nodes from
  the root down to the element.
\<close>

fun getParentBranchPath :: "DOMNode \<Rightarrow> nat list \<Rightarrow> string list" where
  "getParentBranchPath (DOMElementNode e cs) [] = [branchEntry e]"
| "getParentBranchPath (DOMElementNode e cs) (k # ks) =
     branchEntry e # (if k < length cs then getParentBranchPath (cs ! k) ks else [])"
| "getParentBranchPath (DOMTextNode v t) ks = []"

text \<open>
  The hash function \<^verbatim>\<open>_createHash\<close> (an MD5 digest of the platform's crypto
  library) is the parameter \<open>H\<close>.
\<close>

definition parentBranchPathHash :: "(string \<Rightarrow> string) \<Rightarrow> string list \<Rightarrow> string" where
  "parentBranchPathHash H parentBranchPath = H (join ''->'' parentBranchPath)"

definition attributesHashOf :: "(string \<Rightarrow> string) \<Rightarrow> (string \<times> string) list \<Rightarrow> string" where
  "attributesHashOf H attrs =
     H (join '';''
          (map (\<lambda>key. key @ '':'' @ (case map_of attrs key of None \<Rightarrow> ''undefined'' | Some v \<Rightarrow> v))
               (sort (map fst attrs))))"

definition xpathHashOf :: "(string \<Rightarrow> string) \<Rightarrow> string \<Rightarrow> string" where
  "xpathHashOf H x = H x"

definition hashDomHistoryElement :: "(string \<Rightarrow> string) \<Rightarrow> DOMHistoryElement \<Rightarrow> HashedDomElement" where
  "hashDomHistoryElement H h =
     \<lparr>branchPathHash = parentBranchPathHash H (entireParentBranchPath h),
      attributesHash = attributesHashOf H (histAttributes h),
      xpathHash = xpathHashOf H (histXpath h)\<rparr>"

text \<open>
  \<open>_hashDomElement\<close> of the service, for an element whose
  \<open>_getParentBranchPath\<close> is \<open>parentBranchPath\<close>.
\<close>

definition hashDomElementOf :: "(string \<Rightarrow> string) \<Rightarrow> string list \<Rightarrow> ElementInfo \<Rightarrow> HashedDomElement" where
  "hashDomElementOf H parentBranchPath e =
     \<lparr>branchPathHash = parentBranchPathHash H parentBranchPath,
      attributesHash = attributesHashOf H (attributes e),
      xpathHash = xpathHashOf H (xpath e)\<rparr>"

subsection \<open>\<^verbatim>\<open>convertDomElementToHistoryElement\<close> (21--44)\<close>

definition convertDomElementToHistoryElement :: "DOMNode \<Rightarrow> nat list \<Rightarrow> DOMHistoryElement option" where
  "convertDomElementToHistoryElement tree pos =
     (case nodeAt tree pos of
        Some (DOMElementNode e cs) \<Rightarrow>
          Some \<lparr>histTagName = tagName e, histXpath = xpath e,
                histHighlightIndex = highlightIndex e,
                entireParentBranchPath = getParentBranchPath tree pos,
                histAttributes = attributes e, histShadowRoot = shadowRoot e,
                cssSelector = Some (tagName e @
                  (case highlightIndex e of
                     None \<Rightarrow> []
                   | Some i \<Rightarrow> ''[data-highlight='' @ [CHR 0x22] @ string_of_nat i @ [CHR 0x22] @ '']''))\<rparr>
      | _ \<Rightarrow> None)"

subsection \<open>\<^verbatim>\<open>findHistoryElementInTree\<close> (52--80)\<close>

text \<open>
  \<open>processNode\<close> with the branch path \<open>anc\<close> of the parent of the node; the three
  comparisons are the equality of the hash records. \<open>processChildren\<close> is the loop
  over the children from child index \<open>k\<close> on; text nodes are skipped. The result is
  the node found, with its position relative to the node the search started from.
\<close>

fun processNode ::
    "(string \<Rightarrow> string) \<Rightarrow> HashedDomElement \<Rightarrow> string list \<Rightarrow> DOMNode
       \<Rightarrow> (nat list \<times> DOMNode) option"
  and processChildren ::
    "(string \<Rightarrow> string) \<Rightarrow> HashedDomElement \<Rightarrow> string list \<Rightarrow> nat \<Rightarrow> DOMNode list
       \<Rightarrow> (nat list \<times> DOMNode) option" where
  "processNode H target anc (DOMElementNode e cs) =
     (if highlightIndex e \<noteq> None \<and> hashDomElementOf H (anc @ [branchEntry e]) e = target
      then Some ([], DOMElementNode e cs)
      else processChildren H target (anc @ [branchEntry e]) 0 cs)"
| "processNode H target anc (DOMTextNode v t) = None"
| "processChildren H target path k [] = None"
| "processChildren H target path k (DOMElementNode e cs' # cs) =
     (case processNode H target path (DOMElementNode e cs') of
        Some (pos, found) \<Rightarrow> Some (k # pos, found)
      | None \<Rightarrow> processChildren H target path (Suc k) cs)"
| "processChildren H target path k (DOMTextNode v t # cs) =
     processChildren H target path (Suc k) cs"

text \<open>
  The tree handed in is an element. On a text node the source would read
  \<^verbatim>\<open>Object.keys\<close> of its missing attributes, a \<^verbatim>\<open>TypeError\<close>.
\<close>

definition findHistoryElementInTree ::
  "(string \<Rightarrow> string) \<Rightarrow> DOMHistoryElement \<Rightarrow> DOMNode \<Rightarrow> error + (nat list \<times> DOMNode) option" where
  "findHistoryElementInTree H domHistoryElement tree =
     (case tree of
        DOMElementNode e cs \<Rightarrow>
          Inr (processNode H (hashDomHistoryElement H domHistoryElement) [] tree)
      | DOMTextNode v t \<Rightarrow> Inl TypeError)"

text \<open>
  An indexed element at position \<open>pos\<close> of \<open>node\<close>, below ancestors with branch path
  \<open>anc\<close>, whose three hashes are those of \<open>target\<close>.
\<close>

definition matchesIn ::
  "(string \<Rightarrow> string) \<Rightarrow> HashedDomElement \<Rightarrow> string list \<Rightarrow> DOMNode \<Rightarrow> nat list \<Rightarrow> bool" where
  "matchesIn H target anc node pos =
     (case nodeAt node pos of
        Some (DOMElementNode e cs) \<Rightarrow>
          highlightIndex e \<noteq> None
          \<and> hashDomElementOf H (anc @ getParentBranchPath node pos) e = target
      | _ \<Rightarrow> False)"

section \<open>Snapshot builder (\<^verbatim>\<open>DomService\<close>, stored as unnamed/part\_002)\<close>

text \<open>
  The payload of one node as the page script reports it. A flag that the source reads
  as \<^verbatim>\<open>nodeData.flag || false\<close> is a boolean; a highlight index that is undefined
  or null is \<open>None\<close>.
\<close>

record NodeData =
  dataType :: "string option"
  dataText :: "string option"
  dataIsVisible :: bool
  dataTagName :: "string option"
  dataXpath :: "string option"
  dataAttributes :: "(string \<times> string) list option"
  dataIsInteractive :: bool
  dataIsTopElement :: bool
  dataIsInViewport :: bool
  dataShadowRoot :: bool
  dataHighlightIndex :: "nat option"
  dataChildren :: "string list option"

text \<open>
  \<^verbatim>\<open>evalPage\<close>: the node map, a plain object, given by its own properties in the
  order \<^verbatim>\<open>Object.entries\<close> enumerates them (the keys are those of an object,
  hence distinct; a value may be null), and the id of the root.
\<close>

record EvalPage =
  pageMap :: "(string \<times> NodeData option) list option"
  rootId :: "string option"

text \<open>
  \<open>_constructDomTree\<close> creates one object per entry and then mutates the objects
  while it wires them, and the payload may name a child under several parents or on a
  cycle. The objects therefore live in a store, and a node is named by a reference.
  \<open>nodeMap\<close> and the node map of the payload are plain objects: a lookup
  \<^verbatim>\<open>nodeMap[key]\<close> finds the object's own property and otherwise the property
  that every plain object inherits from \<^verbatim>\<open>Object.prototype\<close>, which is a built-in
  object of the language (a function, or \<^verbatim>\<open>Object.prototype\<close> itself for the key
  \<^verbatim>\<open>__proto__\<close>). A reference is therefore either the node created for the entry
  with a given id, or the built-in object inherited under a given key.
\<close>

definition objectPrototypeKeys :: "string list" where
  "objectPrototypeKeys =
     [''constructor'', ''__defineGetter__'', ''__defineSetter__'', ''hasOwnProperty'',
      ''__lookupGetter__'', ''__lookupSetter__'', ''isPrototypeOf'', ''propertyIsEnumerable'',
      ''toString'', ''valueOf'', ''__proto__'', ''toLocaleString'']"

definition inheritedKey :: "string \<Rightarrow> bool" where
  "inheritedKey key = (key \<in> set objectPrototypeKeys)"

datatype Ref = Created string | Builtin string

text \<open>
  What an object of the store is: a text node, an element node, or a built-in object,
  which has no highlight index. A text node and a built-in object get their
  \<^verbatim>\<open>children\<close> array when the first child is pushed; the store keeps an empty list
  until then. \<open>parentRef\<close> and \<open>childRefs\<close> are the object's own
  \<^verbatim>\<open>parent\<close> and \<^verbatim>\<open>children\<close> properties.
\<close>

datatype NodeValue = TextValue bool string | ElementValue ElementInfo | BuiltinValue

record HeapNode =
  nodeValue :: NodeValue
  parentRef :: "Ref option"
  childRefs :: "Ref list"

text \<open>
  The returned root: the placeholder element built on the spot (it has no children and
  is not in the store), an object named by a reference, or \<^verbatim>\<open>undefined\<close>.
\<close>

datatype TreeRoot = Placeholder ElementInfo | NodeRef Ref | Undefined

text \<open>
  The result: the root, the selector map, and the store, which holds the nodes that were
  created and the built-in objects that were written to.
\<close>

record DomTree =
  treeRoot :: TreeRoot
  selectorMap :: "nat \<rightharpoonup> Ref"
  nodeMap :: "Ref \<rightharpoonup> HeapNode"

text \<open>
  The source can write to the prototype chain of its plain objects: the assignment
  \<^verbatim>\<open>nodeMap['__proto__'] = node\<close> of the first pass replaces the prototype of
  \<open>nodeMap\<close>, and the second pass adds a \<^verbatim>\<open>parent\<close> or a
  \<^verbatim>\<open>children\<close> property to \<^verbatim>\<open>Object.prototype\<close> when that object is the
  child or the parent it wires. After such a write, what a lookup on a plain object
  finds depends on the properties of those objects. The construction is followed up to
  that point only: the outcome \<open>PrototypeWritten\<close> says that the write has happened,
  and nothing is stated about what the source returns then.
\<close>

datatype Construction = Built DomTree | PrototypeWritten

text \<open>\<^verbatim>\<open>text.trim() === ''\<close>: the text consists of white space only.\<close>

definition jsWhitespace :: "char \<Rightarrow> bool" where
  "jsWhitespace c =
     (c \<in> set [CHR 0x09, CHR 0x0A, CHR 0x0B, CHR 0x0C, CHR 0x0D, CHR 0x20, CHR 0xA0])"

subsection \<open>\<^verbatim>\<open>_parseNode\<close> (1152--1206)\<close>

definition parseNode :: "NodeData \<Rightarrow> HeapNode option \<times> string list" where
  "parseNode nodeData =
     (let childrenIds = (case dataChildren nodeData of None \<Rightarrow> [] | Some cs \<Rightarrow> cs) in
      if dataType nodeData = Some ''TEXT_NODE'' then
        (case dataText nodeData of
           None \<Rightarrow> (None, childrenIds)
         | Some t \<Rightarrow>
             if t = [] \<or> list_all jsWhitespace t then (None, childrenIds)
             else (Some \<lparr>nodeValue = TextValue (dataIsVisible nodeData) t,
                         parentRef = None, childRefs = []\<rparr>, childrenIds))
      else
        (Some \<lparr>nodeValue = ElementValue
                 \<lparr>isVisible = dataIsVisible nodeData,
                  tagName = (case dataTagName nodeData of None \<Rightarrow> [] | Some t \<Rightarrow> t),
                  xpath = (case dataXpath nodeData of None \<Rightarrow> [] | Some x \<Rightarrow> x),
                  attributes = (case dataAttributes nodeData of None \<Rightarrow> [] | Some a \<Rightarrow> a),
                  isInteractive = dataIsInteractive nodeData,
                  isTopElement = dataIsTopElement nodeData,
                  isInViewport = dataIsInViewport nodeData,
                  shadowRoot = dataShadowRoot nodeData,
                  highlightIndex = dataHighlightIndex nodeData\<rparr>,
               parentRef = None, childRefs = []\<rparr>, childrenIds))"

text \<open>The highlight index of an object of the store; only an element can have one.\<close>

definition valueIndex :: "NodeValue \<Rightarrow> nat option" where
  "valueIndex v =
     (case v of ElementValue e \<Rightarrow> highlightIndex e | TextValue vis t \<Rightarrow> None | BuiltinValue \<Rightarrow> None)"

subsection \<open>\<^verbatim>\<open>_constructDomTree\<close> (1066--1144)\<close>

text \<open>
  \<^verbatim>\<open>nodeMap[key]\<close>: the node created under the key, else the built-in object
  inherited under it, else \<^verbatim>\<open>undefined\<close>. Every object found is truthy.
\<close>

definition lookupNode :: "(Ref \<rightharpoonup> HeapNode) \<Rightarrow> string \<Rightarrow> Ref option" where
  "lookupNode heap key =
     (if heap (Created key) \<noteq> None then Some (Created key)
      else if inheritedKey key then Some (Builtin key)
      else None)"

text \<open>
  The state of an object. A built-in object that was never written to is not in the
  store; it has no \<^verbatim>\<open>parent\<close> and no \<^verbatim>\<open>children\<close> property, as it
  is when the program starts.
\<close>

definition objectAt :: "(Ref \<rightharpoonup> HeapNode) \<Rightarrow> Ref \<Rightarrow> HeapNode" where
  "objectAt heap r =
     (case heap r of
        Some n \<Rightarrow> n
      | None \<Rightarrow> \<lparr>nodeValue = BuiltinValue, parentRef = None, childRefs = []\<rparr>)"

text \<open>The body of the first loop: create the node of one entry and record its index.\<close>

definition createNode ::
  "(Ref \<rightharpoonup> HeapNode) \<times> (nat \<rightharpoonup> Ref) \<Rightarrow> string \<times> NodeData option
     \<Rightarrow> (Ref \<rightharpoonup> HeapNode) \<times> (nat \<rightharpoonup> Ref)" where
  "createNode acc entry =
     (case snd entry of
        None \<Rightarrow> acc
      | Some nodeData \<Rightarrow>
          (case fst (parseNode nodeData) of
             None \<Rightarrow> acc
           | Some node \<Rightarrow>
               ((fst acc)(Created (fst entry) \<mapsto> node),
                (case valueIndex (nodeValue node) of
                   None \<Rightarrow> snd acc
                 | Some k \<Rightarrow> (snd acc)(k \<mapsto> Created (fst entry))))))"

text \<open>
  The body of the inner loop of the second pass, for the object \<open>node\<close> found under
  the id of the entry: \<^verbatim>\<open>childNode.parent = node\<close> and
  \<^verbatim>\<open>node.children.push(childNode)\<close>, skipped for an empty child id and for an id
  under which \<open>nodeMap\<close> finds nothing.
\<close>

definition linkChild :: "Ref \<Rightarrow> (Ref \<rightharpoonup> HeapNode) \<Rightarrow> string \<Rightarrow> (Ref \<rightharpoonup> HeapNode)" where
  "linkChild node heap childId =
     (if childId = [] then heap
      else
        (case lookupNode heap childId of
           None \<Rightarrow> heap
         | Some childNode \<Rightarrow>
             (let heap1 = heap(childNode \<mapsto> (objectAt heap childNode)\<lparr>parentRef := Some node\<rparr>)
              in heap1(node \<mapsto> (objectAt heap1 node)
                                 \<lparr>childRefs := childRefs (objectAt heap1 node) @ [childNode]\<rparr>))))"

definition linkChildren :: "(Ref \<rightharpoonup> HeapNode) \<Rightarrow> string \<times> NodeData option \<Rightarrow> (Ref \<rightharpoonup> HeapNode)" where
  "linkChildren heap entry =
     (case snd entry of
        None \<Rightarrow> heap
      | Some nodeData \<Rightarrow>
          (case dataChildren nodeData of
             None \<Rightarrow> heap
           | Some cs \<Rightarrow>
               (case lookupNode heap (fst entry) of
                  None \<Rightarrow> heap
                | Some node \<Rightarrow> foldl (linkChild node) heap cs)))"


definition placeholderBody :: ElementInfo where
  "placeholderBody =
     \<lparr>isVisible = False, tagName = ''body'', xpath = ''//body'', attributes = [],
      isInteractive = False, isTopElement = False, isInViewport = False, shadowRoot = False,
      highlightIndex = None\<rparr>"

definition degradedTree :: DomTree where
  "degradedTree =
     \<lparr>treeRoot = Placeholder placeholderBody, selectorMap = Map.empty, nodeMap = Map.empty\<rparr>"

text \<open>
  \<^verbatim>\<open>jsNodeMap[jsRootId]\<close> is truthy for an entry whose value is not null and,
  when the payload has no entry under the id, for an inherited key.
\<close>

definition rootKnown :: "(string \<times> NodeData option) list \<Rightarrow> string \<Rightarrow> bool" where
  "rootKnown jsNodeMap jsRootId =
     (case map_of jsNodeMap jsRootId of
        Some (Some rootData) \<Rightarrow> True
      | Some None \<Rightarrow> False
      | None \<Rightarrow> inheritedKey jsRootId)"

text \<open>
  The two passes and the choice of the root. \<open>nodeMap\<close> had its prototype
  replaced if the first pass created a node under the key \<^verbatim>\<open>__proto__\<close>, and
  \<^verbatim>\<open>Object.prototype\<close> was written to if the second pass left it in the store.
\<close>

definition constructDomTree :: "EvalPage option \<Rightarrow> Construction" where
  "constructDomTree evalPage =
     (case evalPage of
        None \<Rightarrow> Built degradedTree
      | Some ep \<Rightarrow>
          (case pageMap ep of
             None \<Rightarrow> Built degradedTree
           | Some jsNodeMap \<Rightarrow>
               (case rootId ep of
                  None \<Rightarrow> Built degradedTree
                | Some jsRootId \<Rightarrow>
                    if jsRootId = [] then Built degradedTree
                    else
                      (let created = foldl createNode (Map.empty, Map.empty) jsNodeMap;
                           heap = foldl linkChildren (fst created) jsNodeMap
                       in if heap (Created ''__proto__'') \<noteq> None \<or> heap (Builtin ''__proto__'') \<noteq> None
                          then PrototypeWritten
                          else if rootKnown jsNodeMap jsRootId
                          then Built \<lparr>treeRoot = (case lookupNode heap jsRootId of
                                                     None \<Rightarrow> Undefined
                                                   | Some rootNode \<Rightarrow> NodeRef rootNode),
                                       selectorMap = snd created, nodeMap = heap\<rparr>
                          else Built \<lparr>treeRoot = Placeholder placeholderBody,
                                       selectorMap = snd created, nodeMap = heap\<rparr>))))"


subsection \<open>\<^verbatim>\<open>_buildDomTree\<close> (988--1031)\<close>

text \<open>
  \<open>sanity\<close> is the outcome of \<^verbatim>\<open>page.evaluate('1+1')\<close> and \<open>evaluated\<close> that
  of evaluating the page script: a thrown error with its message, or the value. Every
  failure path returns \<^verbatim>\<open>[new DOMElementNode(), {}]\<close>.
\<close>

definition emptyElement :: ElementInfo where
  "emptyElement =
     \<lparr>isVisible = False, tagName = ''div'', xpath = '''', attributes = [],
      isInteractive = False, isTopElement = False, isInViewport = False, shadowRoot = False,
      highlightIndex = None\<rparr>"

definition emptyTree :: DomTree where
  "emptyTree = \<lparr>treeRoot = Placeholder emptyElement, selectorMap = Map.empty, nodeMap = Map.empty\<rparr>"

definition buildDomTree :: "string + int \<Rightarrow> string + EvalPage option \<Rightarrow> Construction" where
  "buildDomTree sanity evaluated =
     (case sanity of
        Inl msg \<Rightarrow> Built emptyTree
      | Inr v \<Rightarrow>
          if v \<noteq> 2 then Built emptyTree
          else (case evaluated of
                  Inl msg \<Rightarrow> Built emptyTree
                | Inr evalPage \<Rightarrow> constructDomTree evalPage))"

text \<open>
  The nodes of the returned tree: those reached from the root along the
  \<^verbatim>\<open>children\<close> arrays.
\<close>

inductive reachable :: "(Ref \<rightharpoonup> HeapNode) \<Rightarrow> Ref \<Rightarrow> Ref \<Rightarrow> bool"
  for heap :: "Ref \<rightharpoonup> HeapNode" and r :: Ref where
  root: "reachable heap r r"
| child: "reachable heap r x \<Longrightarrow> heap x = Some n \<Longrightarrow> c \<in> set (childRefs n) \<Longrightarrow> reachable heap r c"

section \<open>Message window manager (agent/message\_manager/service.js)\<close>

datatype Role = System | User | Assistant

text \<open>
  A segment of list content: \<^verbatim>\<open>{type: 'text', text}\<close> (the text may be
  missing), \<^verbatim>\<open>{type: 'image_url', image_url}\<close>, or a segment of another type.
\<close>

datatype Part = TextPart "string option" | ImagePart string | OtherPart string

datatype Content = Str string | Parts "Part list"

record Message =
  role :: Role
  content :: Content

record MessageManagerState =
  history :: "Message list"
  currentTokens :: int
  maxTokens :: int

record MessageManagerSettings =
  maxInputTokens :: int
  includeAttributes :: "string list"
  messageContext :: "string option"
  sensitiveData :: "(string \<times> string) list option"
  availableFilePaths :: "string list option"

record MessageManager =
  task :: string
  systemMessage :: Message
  settings :: MessageManagerSettings
  state :: MessageManagerState

subsection \<open>Token estimate\<close>

text \<open>\<^verbatim>\<open>Math.ceil(n / 4)\<close> for a length \<open>n\<close>.\<close>

definition ceil4 :: "nat \<Rightarrow> int" where
  "ceil4 n = int ((n + 3) div 4)"

fun isTextPart :: "Part \<Rightarrow> bool" where
  "isTextPart (TextPart t) = True"
| "isTextPart p = False"

fun isImagePart :: "Part \<Rightarrow> bool" where
  "isImagePart (ImagePart u) = True"
| "isImagePart p = False"

text \<open>\<^verbatim>\<open>(part.text || '').length\<close>\<close>

fun partTextLength :: "Part \<Rightarrow> nat" where
  "partTextLength (TextPart (Some t)) = length t"
| "partTextLength p = 0"

text \<open>
  The estimate that \<^verbatim>\<open>_addMessageWithTokens\<close>, \<^verbatim>\<open>_removeLastStateMessage\<close>
  and the loop of \<^verbatim>\<open>cutMessages\<close> all compute from a message's content.
\<close>

fun messageTokens :: "Content \<Rightarrow> int" where
  "messageTokens (Str s) = ceil4 (length s)"
| "messageTokens (Parts ps) =
     foldl (\<lambda>sum part. sum + ceil4 (partTextLength part)) 0 (filter isTextPart ps)
     + int (length (filter isImagePart ps)) * 1000"

text \<open>The \<^verbatim>\<open>length\<close> property of a content: characters of a string, segments of a list.\<close>

fun contentLength :: "Content \<Rightarrow> nat" where
  "contentLength (Str s) = length s"
| "contentLength (Parts ps) = length ps"

definition addMessageWithTokens :: "Message \<Rightarrow> MessageManager \<Rightarrow> MessageManager" where
  "addMessageWithTokens message mm =
     mm\<lparr>state := (state mm)\<lparr>history := history (state mm) @ [message],
                              currentTokens := currentTokens (state mm) + messageTokens (content message)\<rparr>\<rparr>"

subsection \<open>Sensitive-data redaction (323--352)\<close>

text \<open>
  \<^verbatim>\<open>text.replace(new RegExp(value, 'g'), replacement)\<close>. The regular-expression
  engine is a built-in of the language, not code of the repository. For a non-empty
  pattern without any syntax character of the pattern language and a replacement without
  \<^verbatim>\<open>$\<close>, the call replaces the matches of the literal pattern, found from left to
  right and not overlapping; that case is computed by \<open>replaceLiteral\<close>. Every
  other pattern or replacement is handed to the parameter \<open>engine\<close>, which may
  raise \<^verbatim>\<open>SyntaxError\<close>.
\<close>

type_synonym RegExpEngine = "string \<Rightarrow> string \<Rightarrow> string \<Rightarrow> error + string"

definition regexSyntaxChars :: "char list" where
  "regexSyntaxChars =
     [CHR 0x5C, CHR ''^'', CHR ''$'', CHR ''.'', CHR ''*'', CHR ''+'', CHR ''?'',
      CHR ''('', CHR '')'', CHR ''['', CHR '']'', CHR ''{'', CHR ''}'', CHR ''|'']"

definition literalPattern :: "string \<Rightarrow> bool" where
  "literalPattern v = (v \<noteq> [] \<and> list_all (\<lambda>c. c \<notin> set regexSyntaxChars) v)"

fun replaceLiteral :: "string \<Rightarrow> string \<Rightarrow> string \<Rightarrow> string" where
  "replaceLiteral v r [] = []"
| "replaceLiteral v r (c # cs) =
     (if v \<noteq> [] \<and> prefix v (c # cs)
      then r @ replaceLiteral v r (drop (length v) (c # cs))
      else c # replaceLiteral v r cs)"

definition regexReplaceAll :: "RegExpEngine \<Rightarrow> string \<Rightarrow> string \<Rightarrow> string \<Rightarrow> error + string" where
  "regexReplaceAll engine v r s =
     (if literalPattern v \<and> CHR ''$'' \<notin> set r then Inr (replaceLiteral v r s)
      else engine v r s)"

definition redactedMarker :: "string \<Rightarrow> string" where
  "redactedMarker key = ''[REDACTED:'' @ key @ '']''"

text \<open>The loop over \<^verbatim>\<open>Object.entries(this.settings.sensitiveData)\<close> on a string.\<close>

fun redactString :: "RegExpEngine \<Rightarrow> (string \<times> string) list \<Rightarrow> string \<Rightarrow> error + string" where
  "redactString engine [] s = Inr s"
| "redactString engine ((key, val) # rest) s =
     (if val \<noteq> [] then
        (case regexReplaceAll engine val (redactedMarker key) s of
           Inl e \<Rightarrow> Inl e
         | Inr s' \<Rightarrow> redactString engine rest s')
      else redactString engine rest s)"

text \<open>The \<^verbatim>\<open>content.map\<close> over the segments of list content.\<close>

fun redactParts :: "RegExpEngine \<Rightarrow> (string \<times> string) list \<Rightarrow> Part list \<Rightarrow> error + Part list" where
  "redactParts engine sd [] = Inr []"
| "redactParts engine sd (TextPart (Some t) # ps) =
     (case redactString engine sd t of
        Inl e \<Rightarrow> Inl e
      | Inr t' \<Rightarrow>
          (case redactParts engine sd ps of
             Inl e \<Rightarrow> Inl e
           | Inr ps' \<Rightarrow> Inr (TextPart (Some t') # ps')))"
| "redactParts engine sd (p # ps) =
     (case redactParts engine sd ps of
        Inl e \<Rightarrow> Inl e
      | Inr ps' \<Rightarrow> Inr (p # ps'))"

definition redactSensitiveData :: "RegExpEngine \<Rightarrow> MessageManager \<Rightarrow> Content \<Rightarrow> error + Content" where
  "redactSensitiveData engine mm c =
     (case sensitiveData (settings mm) of
        None \<Rightarrow> Inr c
      | Some sd \<Rightarrow>
          (case c of
             Str s \<Rightarrow> (case redactString engine sd s of Inl e \<Rightarrow> Inl e | Inr s' \<Rightarrow> Inr (Str s'))
           | Parts ps \<Rightarrow> (case redactParts engine sd ps of Inl e \<Rightarrow> Inl e | Inr ps' \<Rightarrow> Inr (Parts ps'))))"

subsection \<open>Operations that add messages (140--207)\<close>

text \<open>
  \<open>addStateMessage\<close>: the argument \<open>message\<close> is the user message that
  \<^verbatim>\<open>AgentMessagePrompt.getUserMessage\<close> rendered from the browser state.
\<close>

definition addStateMessage :: "RegExpEngine \<Rightarrow> Message \<Rightarrow> MessageManager \<Rightarrow> error + MessageManager" where
  "addStateMessage engine message mm =
     (case sensitiveData (settings mm) of
        None \<Rightarrow> Inr (addMessageWithTokens message mm)
      | Some sd \<Rightarrow>
          (case redactSensitiveData engine mm (content message) of
             Inl e \<Rightarrow> Inl e
           | Inr c \<Rightarrow> Inr (addMessageWithTokens (message\<lparr>content := c\<rparr>) mm)))"

text \<open>\<open>addModelOutput\<close>: the argument is \<^verbatim>\<open>JSON.stringify(modelOutput)\<close>.\<close>

definition addModelOutput :: "string \<Rightarrow> MessageManager \<Rightarrow> MessageManager" where
  "addModelOutput json mm = addMessageWithTokens \<lparr>role = Assistant, content = Str json\<rparr> mm"

definition addNewTask :: "string \<Rightarrow> MessageManager \<Rightarrow> MessageManager" where
  "addNewTask newTask mm =
     addMessageWithTokens \<lparr>role = User, content = Str (''New task: '' @ newTask)\<rparr> mm"

text \<open>
  \<open>initializeHistory\<close> (74--98): the system message, then the task message, whose
  text is built from the task, the message context and the available file paths.
\<close>

definition taskContent :: "MessageManager \<Rightarrow> string" where
  "taskContent mm =
     ''Task: '' @ task mm
     @ (case messageContext (settings mm) of
          None \<Rightarrow> []
        | Some ctx \<Rightarrow> if ctx = [] then [] else [CHR 0x0A, CHR 0x0A] @ ctx)
     @ (case availableFilePaths (settings mm) of
          None \<Rightarrow> []
        | Some paths \<Rightarrow>
            if paths = [] then []
            else [CHR 0x0A, CHR 0x0A] @ ''Available files:''
                 @ concat (map (\<lambda>filePath. [CHR 0x0A] @ ''- '' @ filePath) paths))"

definition initializeHistory :: "MessageManager \<Rightarrow> MessageManager" where
  "initializeHistory mm =
     addMessageWithTokens \<lparr>role = User, content = Str (taskContent mm)\<rparr>
       (addMessageWithTokens (systemMessage mm) mm)"

text \<open>\<^verbatim>\<open>array.splice(position, 0, x)\<close>: a negative position counts from the end.\<close>

definition splice_insert :: "int \<Rightarrow> 'a \<Rightarrow> 'a list \<Rightarrow> 'a list" where
  "splice_insert position x xs =
     (let n = int (length xs);
          start = (if position < 0 then max (n + position) 0 else min position n)
      in take (nat start) xs @ [x] @ drop (nat start) xs)"

text \<open>\<open>addPlan\<close>: a plan that is null or the empty string adds nothing.\<close>

definition addPlan :: "string option \<Rightarrow> int \<Rightarrow> MessageManager \<Rightarrow> MessageManager" where
  "addPlan plan position mm =
     (case plan of
        None \<Rightarrow> mm
      | Some p \<Rightarrow>
          if p = [] then mm
          else
            let message = \<lparr>role = User, content = Str (''Plan: '' @ p)\<rparr> in
            if position = -1 then addMessageWithTokens message mm
            else
              let tokens = ceil4 (contentLength (content message)) in
              mm\<lparr>state := (state mm)\<lparr>history := splice_insert position message (history (state mm)),
                                       currentTokens := currentTokens (state mm) + tokens\<rparr>\<rparr>)"

definition removeLastStateMessage :: "MessageManager \<Rightarrow> MessageManager" where
  "removeLastStateMessage mm =
     (if history (state mm) \<noteq> [] \<and> role (last (history (state mm))) = User
      then mm\<lparr>state := (state mm)\<lparr>history := butlast (history (state mm)),
                                   currentTokens := currentTokens (state mm)
                                      - messageTokens (content (last (history (state mm))))\<rparr>\<rparr>
      else mm)"

subsection \<open>Window trimming (248--300)\<close>

text \<open>
  The loop \<^verbatim>\<open>for (i = history.length - 1; i >= 2; i--)\<close>: the first argument after
  the ceiling lists the messages in the order the loop visits them (newest first); the
  pair is \<^verbatim>\<open>newHistory\<close> without its first two entries, and \<^verbatim>\<open>newTokens\<close>.
  \<^verbatim>\<open>newHistory.splice(2, 0, message)\<close> puts the message in front of the ones
  added before it.
\<close>

fun cutLoop :: "int \<Rightarrow> Message list \<Rightarrow> Message list \<times> int \<Rightarrow> Message list \<times> int" where
  "cutLoop ceiling [] acc = acc"
| "cutLoop ceiling (message # older) (kept, newTokens) =
     (if newTokens + messageTokens (content message) > ceiling
      then cutLoop ceiling older (kept, newTokens)
      else cutLoop ceiling older (message # kept, newTokens + messageTokens (content message)))"

text \<open>
  With fewer than two messages \<^verbatim>\<open>taskMessage.content\<close> (or
  \<^verbatim>\<open>systemMessage.content\<close>) reads a property of \<^verbatim>\<open>undefined\<close>: a
  \<^verbatim>\<open>TypeError\<close>, raised before any field of the state is assigned.
\<close>

definition cutMessages :: "MessageManager \<Rightarrow> error + MessageManager" where
  "cutMessages mm =
     (if currentTokens (state mm) \<le> maxTokens (state mm) then Inr mm
      else
        (case history (state mm) of
           sysMsg # taskMsg # rest \<Rightarrow>
             (let newTokens = ceil4 (contentLength (content sysMsg))
                              + ceil4 (contentLength (content taskMsg));
                  (kept, total) = cutLoop (maxTokens (state mm)) (rev rest) ([], newTokens)
              in Inr (mm\<lparr>state := (state mm)\<lparr>history := sysMsg # taskMsg # kept,
                                              currentTokens := total\<rparr>\<rparr>))
         | _ \<Rightarrow> Inl TypeError))"

text \<open>
  The token total that \<open>cutMessages\<close> records for a window made of the first two
  messages and the retained messages \<open>ks\<close>: the first two are costed by the
  \<^verbatim>\<open>length\<close> of their content, the others by \<open>messageTokens\<close>.
\<close>

definition windowTokens :: "Message \<Rightarrow> Message \<Rightarrow> Message list \<Rightarrow> int" where
  "windowTokens sysMsg taskMsg ks =
     ceil4 (contentLength (content sysMsg)) + ceil4 (contentLength (content taskMsg))
     + sum_list (map (\<lambda>m. messageTokens (content m)) ks)"

section \<open>Step orchestrator (the agent service, stored as agent/message\_manager/utils.js)\<close>

record ActionResult =
  isDone :: bool
  success :: "bool option"
  extractedContent :: "string option"
  error :: "string option"
  includeInMemory :: bool

text \<open>\<open>plannerLlm\<close> tells whether a planner model is configured.\<close>

record AgentSettings =
  agentMaxInputTokens :: int
  plannerLlm :: bool
  plannerInterval :: nat
  maxFailures :: nat
  retryDelay :: nat

record AgentState =
  nSteps :: nat
  consecutiveFailures :: nat
  lastResult :: "ActionResult list"

record Agent =
  agentSettings :: AgentSettings
  agentState :: AgentState
  messageManager :: MessageManager

text \<open>
  A caught exception: whether it is an instance of \<^verbatim>\<open>Error\<close>, its name, its message,
  what \<^verbatim>\<open>String(error)\<close> gives, and its stack.
\<close>

record JsError =
  isErrorInstance :: bool
  errName :: string
  errMessage :: string
  errString :: string
  errStack :: "string option"

text \<open>\<^verbatim>\<open>AgentError.formatError\<close> (agent/views.js)\<close>

definition formatError :: "JsError \<Rightarrow> bool \<Rightarrow> string" where
  "formatError err includeTrace =
     (let errorMessage = (if errMessage err \<noteq> [] then errMessage err else errString err)
      in case errStack err of
           Some st \<Rightarrow> if includeTrace \<and> st \<noteq> [] then errorMessage @ [CHR 0x0A] @ st else errorMessage
         | None \<Rightarrow> errorMessage)"

definition errorResult :: "string \<Rightarrow> ActionResult" where
  "errorResult msg =
     \<lparr>isDone = False, success = None, extractedContent = None, error = Some msg,
      includeInMemory = True\<rparr>"

subsection \<open>The context part of \<^verbatim>\<open>Agent.step\<close> (585--596)\<close>

text \<open>
  From \<^verbatim>\<open>addStateMessage\<close> to the planner call. \<open>stateMessage\<close> is the rendered
  state message, \<open>plan\<close> what \<^verbatim>\<open>_runPlanner\<close> returns. The remainder
  \<^verbatim>\<open>nSteps % plannerInterval\<close> is \<^verbatim>\<open>NaN\<close> for an interval of zero, which
  is not \<^verbatim>\<open>=== 0\<close>.
\<close>

definition stepAddContext :: "RegExpEngine \<Rightarrow> Message \<Rightarrow> string option \<Rightarrow> Agent \<Rightarrow> error + Agent" where
  "stepAddContext engine stateMessage plan ag =
     (case addStateMessage engine stateMessage (messageManager ag) of
        Inl e \<Rightarrow> Inl e
      | Inr mm \<Rightarrow>
          if plannerLlm (agentSettings ag) \<and> plannerInterval (agentSettings ag) \<noteq> 0
             \<and> nSteps (agentState ag) mod plannerInterval (agentSettings ag) = 0
          then Inr (ag\<lparr>messageManager := addPlan plan (-1) mm\<rparr>)
          else Inr (ag\<lparr>messageManager := mm\<rparr>))"

subsection \<open>\<^verbatim>\<open>Agent._handleStepError\<close> (712--743)\<close>

text \<open>
  The branch for a parse error assigns to the \<^verbatim>\<open>const errorMsg\<close>, which raises a
  \<^verbatim>\<open>TypeError\<close>. The back-off sleep of the rate-limit branch changes no state.
\<close>

definition bumpFailures :: "Agent \<Rightarrow> Agent" where
  "bumpFailures ag =
     ag\<lparr>agentState := (agentState ag)\<lparr>consecutiveFailures := consecutiveFailures (agentState ag) + 1\<rparr>\<rparr>"

definition handleStepError :: "bool \<Rightarrow> JsError \<Rightarrow> Agent \<Rightarrow> error + (ActionResult list \<times> Agent)" where
  "handleStepError includeTrace err ag =
     (let errorMsg = formatError err includeTrace in
      if isErrorInstance err \<and> (errName err = ''ValidationError'' \<or> errName err = ''ValueError'')
      then
        if sublist ''Max token limit reached'' errorMsg then
          (let mm = messageManager ag;
               mm1 = mm\<lparr>settings := (settings mm)\<lparr>maxInputTokens :=
                                          agentMaxInputTokens (agentSettings ag) - 500\<rparr>\<rparr>
           in case cutMessages mm1 of
                Inl e \<Rightarrow> Inl e
              | Inr mm2 \<Rightarrow> Inr ([errorResult errorMsg], bumpFailures (ag\<lparr>messageManager := mm2\<rparr>)))
        else if sublist ''Could not parse response'' errorMsg then Inl TypeError
        else Inr ([errorResult errorMsg], bumpFailures ag)
      else Inr ([errorResult errorMsg], bumpFailures ag))"

subsection \<open>\<^verbatim>\<open>Agent.multiAct\<close> and \<^verbatim>\<open>Agent._isSubset\<close> (1347--1455)\<close>

text \<open>
  An action of the batch. \<open>getIndex\<close> is \<open>None\<close> when the object has no
  \<^verbatim>\<open>getIndex\<close> method and \<open>Some None\<close> when the method returns null.
  \<open>actionType\<close> is the type that wrapping the action in \<^verbatim>\<open>this.ActionModel\<close>
  resolves, \<open>None\<close> when it resolves none.
\<close>

record Action =
  getIndex :: "nat option option"
  actionType :: "string option"
  actionParams :: string

text \<open>
  What the batch reads from its surroundings: the selector map of the \<open>k\<close>-th call of
  \<^verbatim>\<open>browserContext.getState()\<close> (call \<open>0\<close> is the one before the loop, call
  \<open>i + 1\<close> the one of iteration \<open>i\<close>); whether
  \<^verbatim>\<open>_raiseIfStoppedOrPaused\<close> raises in iteration \<open>i\<close>; and what
  \<^verbatim>\<open>controller.executeAction\<close> does in iteration \<open>i\<close>: it returns a
  result or throws an error with a message.
\<close>

record Env =
  getState :: "nat \<Rightarrow> (nat \<times> DOMNode) list"
  interrupted :: "nat \<Rightarrow> bool"
  executeAction :: "nat \<Rightarrow> Action \<Rightarrow> string + ActionResult"

text \<open>
  \<^verbatim>\<open>Object.values(selectorMap).map(e => e.hash?.branchPathHash).filter(Boolean)\<close>;
  the set built from it is kept as the list of its members.
\<close>

definition pathHashes :: "(nat \<times> DOMNode) list \<Rightarrow> string list" where
  "pathHashes entries =
     filter (\<lambda>h. h \<noteq> [])
       (List.map_filter (\<lambda>e. map_option branchPathHash (hash e)) (map snd entries))"

definition isSubset :: "string list \<Rightarrow> string list \<Rightarrow> bool" where
  "isSubset a b = list_all (\<lambda>item. item \<in> set b) a"

definition newElementsResult :: "nat \<Rightarrow> nat \<Rightarrow> ActionResult" where
  "newElementsResult i n =
     \<lparr>isDone = False, success = None,
      extractedContent = Some (''Something new appeared after action '' @ string_of_nat i
                               @ '' / '' @ string_of_nat n),
      error = None, includeInMemory = True\<rparr>"

definition truthy :: "string option \<Rightarrow> bool" where
  "truthy v = (case v of None \<Rightarrow> False | Some s \<Rightarrow> s \<noteq> [])"

text \<open>\<^verbatim>\<open>action.getIndex !== undefined && action.getIndex() !== null\<close>\<close>

definition declaresIndex :: "Action \<Rightarrow> bool" where
  "declaresIndex action = (case getIndex action of None \<Rightarrow> False | Some idx \<Rightarrow> idx \<noteq> None)"

text \<open>
  The loop from index \<open>i\<close> over the remaining actions; \<open>n\<close> is
  \<^verbatim>\<open>actions.length\<close>. The accumulator holds \<^verbatim>\<open>results\<close> and the indices
  of the actions handed to \<^verbatim>\<open>controller.executeAction\<close> so far. The interruption
  is raised outside the \<^verbatim>\<open>try\<close> and leaves \<open>multiAct\<close>.
\<close>

fun multiActLoop ::
  "Env \<Rightarrow> bool \<Rightarrow> string list \<Rightarrow> nat \<Rightarrow> nat \<Rightarrow> Action list
     \<Rightarrow> ActionResult list \<times> nat list \<Rightarrow> error + (ActionResult list \<times> nat list)" where
  "multiActLoop env checkForNewElements cachedPathHashes n i [] acc = Inr acc"
| "multiActLoop env checkForNewElements cachedPathHashes n i (action # later) (results, dispatched) =
     (if declaresIndex action \<and> i \<noteq> 0
         \<and> checkForNewElements
         \<and> \<not> isSubset (pathHashes (getState env (Suc i))) cachedPathHashes
      then Inr (results @ [newElementsResult i n], dispatched)
      else if interrupted env i then Inl Interrupted
      else
        (case actionType action of
           None \<Rightarrow> Inr (results @ [errorResult ''Action type not specified''], dispatched)
         | Some ty \<Rightarrow>
             (case executeAction env i action of
                Inl msg \<Rightarrow> Inr (results @ [errorResult msg], dispatched @ [i])
              | Inr result \<Rightarrow>
                  if isDone result \<or> truthy (error result) \<or> i = n - 1
                  then Inr (results @ [result], dispatched @ [i])
                  else multiActLoop env checkForNewElements cachedPathHashes n (Suc i) later
                         (results @ [result], dispatched @ [i]))))"

definition multiAct :: "Env \<Rightarrow> Action list \<Rightarrow> bool \<Rightarrow> error + (ActionResult list \<times> nat list)" where
  "multiAct env actions checkForNewElements =
     multiActLoop env checkForNewElements (pathHashes (getState env 0)) (length actions) 0
       actions ([], [])"

section \<open>Concrete conversations\<close>

definition plainSettings :: MessageManagerSettings where
  "plainSettings =
     \<lparr>maxInputTokens = 1000, includeAttributes = [], messageContext = None,
      sensitiveData = None, availableFilePaths = None\<rparr>"

definition textMessage :: "Role \<Rightarrow> nat \<Rightarrow> char \<Rightarrow> Message" where
  "textMessage r n c = \<lparr>role = r, content = Str (replicate n c)\<rparr>"

text \<open>
  The conversation of the specification's scenario: ceiling 1000, a system message of
  200 tokens, a task of 100 and five state messages of 300 each.
\<close>

definition scenarioWindow :: MessageManager where
  "scenarioWindow =
     \<lparr>task = ''t'', systemMessage = textMessage System 800 CHR ''s'',
      settings = plainSettings,
      state = \<lparr>history = [textMessage System 800 CHR ''s'', textMessage User 400 CHR ''t'',
                           textMessage User 1200 CHR ''a'', textMessage User 1200 CHR ''b'',
                           textMessage User 1200 CHR ''c'', textMessage User 1200 CHR ''d'',
                           textMessage User 1200 CHR ''e''],
               currentTokens = 1800, maxTokens = 1000\<rparr>\<rparr>"

text \<open>A window whose newest message alone does not fit, while an older one does.\<close>

definition gapWindow :: MessageManager where
  "gapWindow =
     \<lparr>task = ''t'', systemMessage = textMessage System 8 CHR ''s'',
      settings = plainSettings,
      state = \<lparr>history = [textMessage System 8 CHR ''s'', textMessage User 8 CHR ''t'',
                           textMessage User 16 CHR ''a'', textMessage Assistant 4 CHR ''b'',
                           textMessage User 40 CHR ''c''],
               currentTokens = 19, maxTokens = 9\<rparr>\<rparr>"

text \<open>
  An agent with a ceiling of 1000 whose history holds 900 estimated tokens, and the
  validation error that reports an exhausted token limit.
\<close>

definition tokenLimitAgent :: Agent where
  "tokenLimitAgent =
     \<lparr>agentSettings = \<lparr>agentMaxInputTokens = 1000, plannerLlm = True, plannerInterval = 1,
                        maxFailures = 3, retryDelay = 10\<rparr>,
      agentState = \<lparr>nSteps = 4, consecutiveFailures = 0, lastResult = []\<rparr>,
      messageManager =
        \<lparr>task = ''t'', systemMessage = textMessage System 400 CHR ''s'',
         settings = plainSettings,
         state = \<lparr>history = [textMessage System 400 CHR ''s'', textMessage User 400 CHR ''t'',
                              textMessage User 1400 CHR ''a'', textMessage User 1400 CHR ''b''],
                  currentTokens = 900, maxTokens = 1000\<rparr>\<rparr>\<rparr>"

definition tokenLimitError :: JsError where
  "tokenLimitError =
     \<lparr>isErrorInstance = True, errName = ''ValidationError'',
      errMessage = ''Max token limit reached'',
      errString = ''ValidationError: Max token limit reached'', errStack = None\<rparr>"

text \<open>An engine for the patterns outside the literal fragment: it rejects all of them.\<close>

definition rejectingEngine :: RegExpEngine where
  "rejectingEngine v r s = Inl SyntaxError"

section \<open>Concrete batches\<close>

definition element :: "string \<Rightarrow> nat option \<Rightarrow> (string \<times> string) list \<Rightarrow> ElementInfo" where
  "element tag idx attrs =
     \<lparr>isVisible = True, tagName = tag, xpath = ''/html/body/'' @ tag, attributes = attrs,
      isInteractive = True, isTopElement = True, isInViewport = True, shadowRoot = False,
      highlightIndex = idx\<rparr>"

definition okResult :: ActionResult where
  "okResult =
     \<lparr>isDone = False, success = None, extractedContent = Some ''ok'', error = None,
      includeInMemory = False\<rparr>"

definition clickAction :: "nat \<Rightarrow> Action" where
  "clickAction k =
     \<lparr>getIndex = Some (Some k), actionType = Some ''click_element'', actionParams = ''{}''\<rparr>"

definition scrollAction :: Action where
  "scrollAction = \<lparr>getIndex = None, actionType = Some ''scroll_down'', actionParams = ''{}''\<rparr>"

text \<open>
  The batch of the specification's scenario: three actions, the second declares an
  index, and after the first action a dialog with a new hash is on the page.
\<close>

definition dialogEnv :: Env where
  "dialogEnv =
     \<lparr>getState = (\<lambda>k. if k < 2
                       then [(0, DOMElementNode (element ''button'' (Some 0) []) [])]
                       else [(0, DOMElementNode (element ''button'' (Some 0) []) []),
                             (1, DOMElementNode (element ''dialog'' (Some 1) []) [])]),
      interrupted = (\<lambda>i. False),
      executeAction = (\<lambda>i a. Inr okResult)\<rparr>"

text \<open>
  A batch during which an element leaves the page and nothing new appears: the selector
  map starts with a button and a link and holds only the button from the second
  iteration on.
\<close>

definition vanishEnv :: Env where
  "vanishEnv =
     \<lparr>getState = (\<lambda>k. if k < 2
                       then [(0, DOMElementNode (element ''button'' (Some 0) []) []),
                             (1, DOMElementNode (element ''a'' (Some 1) []) [])]
                       else [(0, DOMElementNode (element ''button'' (Some 0) []) [])]),
      interrupted = (\<lambda>i. False),
      executeAction = (\<lambda>i a. Inr okResult)\<rparr>"

text \<open>Two buttons that differ in attributes, index, position and content.\<close>

definition saveButton :: DOMNode where
  "saveButton =
     DOMElementNode (element ''button'' (Some 0) [(''id'', ''save'')]) [DOMTextNode True ''Save'']"

definition menuButton :: DOMNode where
  "menuButton =
     DOMElementNode ((element ''button'' (Some 7) [(''class'', ''menu'')])\<lparr>xpath := ''/html/body/nav/button''\<rparr>)
       [DOMElementNode (element ''svg'' None []) []]"

text \<open>An agent with a planner that is due at the current step.\<close>

definition plannerAgent :: Agent where
  "plannerAgent =
     \<lparr>agentSettings = \<lparr>agentMaxInputTokens = 1000, plannerLlm = True, plannerInterval = 2,
                        maxFailures = 3, retryDelay = 10\<rparr>,
      agentState = \<lparr>nSteps = 4, consecutiveFailures = 0, lastResult = []\<rparr>,
      messageManager =
        \<lparr>task = ''t'', systemMessage = textMessage System 8 CHR ''s'',
         settings = plainSettings,
         state = \<lparr>history = [textMessage System 8 CHR ''s'', textMessage User 8 CHR ''t''],
                  currentTokens = 4, maxTokens = 1000\<rparr>\<rparr>\<rparr>"

section \<open>Concrete payloads\<close>

definition elementData :: "string \<Rightarrow> nat option \<Rightarrow> string list \<Rightarrow> NodeData" where
  "elementData tag idx cs =
     \<lparr>dataType = Some ''ELEMENT_NODE'', dataText = None, dataIsVisible = True,
      dataTagName = Some tag, dataXpath = Some (''/html/'' @ tag), dataAttributes = Some [],
      dataIsInteractive = (idx \<noteq> None), dataIsTopElement = True, dataIsInViewport = True,
      dataShadowRoot = False, dataHighlightIndex = idx, dataChildren = Some cs\<rparr>"




text \<open>A payload with a node map and no root id.\<close>

definition rootlessPage :: EvalPage where
  "rootlessPage =
     \<lparr>pageMap = Some [(''0'', Some (elementData ''body'' None []))], rootId = None\<rparr>"

section \<open>What the first pass leaves in the store and in the selector map\<close>






text \<open>
  A payload that names a child under the inherited key \<^verbatim>\<open>constructor\<close>, and one
  whose root id is that key.
\<close>

definition inheritedChildPage :: EvalPage where
  "inheritedChildPage =
     \<lparr>pageMap = Some [(''0'', Some (elementData ''body'' None [''constructor'']))],
      rootId = Some ''0''\<rparr>"

definition inheritedRootPage :: EvalPage where
  "inheritedRootPage =
     \<lparr>pageMap = Some [(''0'', Some (elementData ''body'' None []))],
      rootId = Some ''constructor''\<rparr>"

text \<open>A payload whose body lists the child id \<^verbatim>\<open>__proto__\<close>.\<close>

definition protoChildPage :: EvalPage where
  "protoChildPage =
     \<lparr>pageMap = Some [(''0'', Some (elementData ''body'' None [''__proto__'']))],
      rootId = Some ''0''\<rparr>"

section \<open>What redaction is to achieve\<close>

text \<open>
  The specification's reading of redaction, used to state what the code is compared
  with. \<open>replacedAll v r s t\<close>: \<open>t\<close> is \<open>s\<close> with every occurrence of the literal
  \<open>v\<close>, taken from left to right without overlap, replaced by \<open>r\<close>. The second rule
  singles out the leftmost occurrence: \<open>v\<close> does not occur in \<open>p\<close> extended by all
  but the last character of \<open>v\<close>.
\<close>

inductive replacedAll :: "string \<Rightarrow> string \<Rightarrow> string \<Rightarrow> string \<Rightarrow> bool"
  for v :: string and r :: string where
  none: "\<not> sublist v s \<Longrightarrow> replacedAll v r s s"
| first: "\<not> sublist v (p @ butlast v) \<Longrightarrow> replacedAll v r q t
            \<Longrightarrow> replacedAll v r (p @ v @ q) (p @ r @ t)"

text \<open>
  \<open>redactedBy sd s t\<close>: the entries of the mapping with a non-empty value are applied
  one after the other, in the order of the mapping, each to the text the earlier ones
  left.
\<close>

inductive redactedBy :: "(string \<times> string) list \<Rightarrow> string \<Rightarrow> string \<Rightarrow> bool" where
  finished: "redactedBy [] s s"
| skipped: "val = [] \<Longrightarrow> redactedBy rest s t \<Longrightarrow> redactedBy ((key, val) # rest) s t"
| applied: "val \<noteq> [] \<Longrightarrow> replacedAll val (redactedMarker key) s s' \<Longrightarrow> redactedBy rest s' t
            \<Longrightarrow> redactedBy ((key, val) # rest) s t"

fun redactedPart :: "(string \<times> string) list \<Rightarrow> Part \<Rightarrow> Part \<Rightarrow> bool" where
  "redactedPart sd (TextPart (Some t)) p' = (\<exists>t'. p' = TextPart (Some t') \<and> redactedBy sd t t')"
| "redactedPart sd p p' = (p' = p)"

fun redactedContent :: "(string \<times> string) list \<Rightarrow> Content \<Rightarrow> Content \<Rightarrow> bool" where
  "redactedContent sd (Str s) c' = (\<exists>t. c' = Str t \<and> redactedBy sd s t)"
| "redactedContent sd (Parts ps) c' = (\<exists>ps'. c' = Parts ps' \<and> list_all2 (redactedPart sd) ps ps')"

text \<open>A message manager with two secrets, one of which starts with the other.\<close>

definition secretsManager :: MessageManager where
  "secretsManager =
     \<lparr>task = ''t'', systemMessage = textMessage System 8 CHR ''s'',
      settings = plainSettings\<lparr>sensitiveData := Some [(''user'', ''abc''), (''pass'', ''abcdef'')]\<rparr>,
      state = \<lparr>history = [], currentTokens = 0, maxTokens = 1000\<rparr>\<rparr>"

section \<open>Concrete trees\<close>

text \<open>A stand-in for the digest that maps different strings to different hashes.\<close>

definition plainHash :: "string \<Rightarrow> string" where
  "plainHash s = s"

text \<open>
  The tree of the specification's scenario: a body with a button of index 0, labelled
  \<^verbatim>\<open>Submit\<close>, and the text \<^verbatim>\<open>Hello\<close>.
\<close>

definition submitButton :: DOMNode where
  "submitButton = DOMElementNode (element ''button'' (Some 0) [(''type'', ''submit'')])
                    [DOMTextNode True ''Submit'']"

definition scenarioTree :: DOMNode where
  "scenarioTree = DOMElementNode (element ''body'' None []) [submitButton, DOMTextNode True ''Hello'']"

text \<open>A tree that is a single element without a highlight index.\<close>

definition plainDiv :: DOMNode where
  "plainDiv = DOMElementNode (element ''div'' None []) []"

text \<open>
  A tree in which two buttons carry the same index, location expression and
  attributes, and differ in their label.
\<close>

definition twinTree :: DOMNode where
  "twinTree =
     DOMElementNode (element ''body'' None [])
       [DOMElementNode (element ''button'' (Some 0) []) [DOMTextNode True ''Yes''],
        DOMElementNode (element ''button'' (Some 0) []) [DOMTextNode True ''No'']]"

text \<open>The history record of the button of the scenario.\<close>

definition submitRecord :: DOMHistoryElement where
  "submitRecord =
     \<lparr>histTagName = ''button'', histXpath = ''/html/body/button'',
      histHighlightIndex = Some 0, entireParentBranchPath = [''body:null'', ''button:0''],
      histAttributes = [(''type'', ''submit'')], histShadowRoot = False,
      cssSelector = Some (''button[data-highlight='' @ [CHR 0x22] @ ''0'' @ [CHR 0x22] @ '']'')\<rparr>"

text \<open>The history records derived from the single \<^verbatim>\<open>div\<close> and from the second twin.\<close>

definition plainDivRecord :: DOMHistoryElement where
  "plainDivRecord =
     \<lparr>histTagName = ''div'', histXpath = ''/html/body/div'', histHighlightIndex = None,
      entireParentBranchPath = [''div:null''], histAttributes = [], histShadowRoot = False,
      cssSelector = Some ''div''\<rparr>"

definition twinRecord :: DOMHistoryElement where
  "twinRecord =
     \<lparr>histTagName = ''button'', histXpath = ''/html/body/button'',
      histHighlightIndex = Some 0, entireParentBranchPath = [''body:null'', ''button:0''],
      histAttributes = [], histShadowRoot = False,
      cssSelector = Some (''button[data-highlight='' @ [CHR 0x22] @ ''0'' @ [CHR 0x22] @ '']'')\<rparr>"

section \<open>Properties of window trimming\<close>

lemma ceil4_nonneg: "0 \<le> ceil4 n"
  by (simp add: ceil4_def)

lemma foldl_text_tokens_nonneg:
  "0 \<le> a \<Longrightarrow> 0 \<le> foldl (\<lambda>sum part. sum + ceil4 (partTextLength part)) a ps"
  by (induction ps arbitrary: a) (simp_all add: ceil4_nonneg)

lemma messageTokens_nonneg: "0 \<le> messageTokens c"
  by (cases c) (simp_all add: ceil4_nonneg foldl_text_tokens_nonneg)

lemma cutLoop_over: "ceiling < t \<Longrightarrow> cutLoop ceiling ms (k, t) = (k, t)"
proof (induction ms)
  case Nil
  then show ?case by simp
next
  case (Cons m ms)
  have "0 \<le> messageTokens (content m)" by (rule messageTokens_nonneg)
  with Cons show ?case by simp
qed

lemma cutLoop_fits: "t \<le> ceiling \<Longrightarrow> snd (cutLoop ceiling ms (k, t)) \<le> ceiling"
  by (induction ms arbitrary: k t) simp_all

lemma cutLoop_append:
  "cutLoop ceiling (xs @ ys) acc = cutLoop ceiling ys (cutLoop ceiling xs acc)"
proof (induction xs arbitrary: acc)
  case Nil
  then show ?case by simp
next
  case (Cons x xs)
  then show ?case by (cases acc) simp
qed

lemma cutLoop_shape:
  "\<exists>new. cutLoop ceiling ms (k, t) = (new @ k, t + sum_list (map (\<lambda>m. messageTokens (content m)) new))
         \<and> subseq new (rev ms)"
proof (induction ms arbitrary: k t)
  case Nil
  then show ?case by simp
next
  case (Cons m ms)
  show ?case
  proof (cases "t + messageTokens (content m) > ceiling")
    case True
    from Cons.IH [of k t] obtain new where
      n: "cutLoop ceiling ms (k, t) = (new @ k, t + sum_list (map (\<lambda>m. messageTokens (content m)) new))"
         "subseq new (rev ms)" by blast
    from n(2) have "subseq new (rev ms @ [m])" by (rule subseq_rev_drop_many)
    with n(1) True show ?thesis by auto
  next
    case False
    from Cons.IH [of "m # k" "t + messageTokens (content m)"] obtain new where
      n: "cutLoop ceiling ms (m # k, t + messageTokens (content m)) =
            (new @ m # k, t + messageTokens (content m) + sum_list (map (\<lambda>m. messageTokens (content m)) new))"
         "subseq new (rev ms)" by blast
    from n(2) have "subseq (new @ [m]) (rev ms @ [m])" by (rule list_emb_append_mono) simp
    with n(1) False show ?thesis
      by (intro exI [of _ "new @ [m]"]) simp
  qed
qed


lemma sum_messageTokens_nonneg: "0 \<le> sum_list (map (\<lambda>m. messageTokens (content m)) ks)"
  by (induction ks) (simp_all add: messageTokens_nonneg)

lemma cutLoop_window:
  "\<exists>kept. cutLoop ceiling (rev rest)
            ([], ceil4 (contentLength (content s)) + ceil4 (contentLength (content t)))
          = (kept, windowTokens s t kept) \<and> subseq kept rest"
  using cutLoop_shape [of ceiling "rev rest" "[]"
      "ceil4 (contentLength (content s)) + ceil4 (contentLength (content t))"]
  by (auto simp: windowTokens_def)

lemma cutLoop_split:
  assumes "cutLoop ceiling (rev post) ([], h) = (kpost, tp)"
  shows "\<exists>kpre. subseq kpre pre \<and>
      fst (cutLoop ceiling (rev (pre @ m # post)) ([], h))
        = kpre @ (if tp + messageTokens (content m) \<le> ceiling then [m] else []) @ kpost"
proof -
  let ?mid = "(if tp + messageTokens (content m) \<le> ceiling then [m] else []) @ kpost"
  let ?tm = "(if tp + messageTokens (content m) \<le> ceiling then tp + messageTokens (content m) else tp)"
  have step: "cutLoop ceiling (rev post @ [m]) ([], h) = (?mid, ?tm)"
    using assms by (simp add: cutLoop_append)
  have "cutLoop ceiling (rev (pre @ m # post)) ([], h) = cutLoop ceiling (rev pre) (?mid, ?tm)"
    using step cutLoop_append [of ceiling "rev post @ [m]" "rev pre" "([], h)"] by simp
  moreover obtain kpre where "cutLoop ceiling (rev pre) (?mid, ?tm)
       = (kpre @ ?mid, ?tm + sum_list (map (\<lambda>m. messageTokens (content m)) kpre))"
      and "subseq kpre (rev (rev pre))"
    using cutLoop_shape [of ceiling "rev pre" ?mid ?tm] by blast
  ultimately show ?thesis by auto
qed

lemma ceil4_plain_text: "ceil4 (contentLength (Str s)) = messageTokens (Str s)"
  by simp

text \<open>
  Claim C3. For a history of at least two messages whose running total exceeds the
  ceiling, \<open>cutMessages\<close> returns normally and keeps the first two messages in
  place; the retained later messages \<open>kept\<close> are a subsequence of the later
  messages in their original order, and the recorded total is that of the retained
  window. Whenever some choice \<open>S\<close> of later messages gives a window total within
  the ceiling, the recorded total is within the ceiling. Messages are decided newest
  first: for every message \<open>m\<close>, what is retained of the messages newer than
  \<open>m\<close> is what the loop retains of them alone (\<open>kpost\<close>), and \<open>m\<close> is
  retained exactly if its estimate added to the total of that retained part stays
  within the ceiling. The window total costs the first two messages as
  \<open>cutMessages\<close> itself does, which for plain-string content is the estimate used
  everywhere else (\<open>ceil4_plain_text\<close>).
\<close>

theorem cutMessages_keeps_head_and_fits:
  assumes hist: "history (state mm) = sysMsg # taskMsg # rest"
      and over: "maxTokens (state mm) < currentTokens (state mm)"
  shows "\<exists>kept.
      cutMessages mm = Inr (mm\<lparr>state := (state mm)\<lparr>history := sysMsg # taskMsg # kept,
                                     currentTokens := windowTokens sysMsg taskMsg kept\<rparr>\<rparr>)
    \<and> subseq kept rest
    \<and> ((\<exists>S. subseq S rest \<and> windowTokens sysMsg taskMsg S \<le> maxTokens (state mm))
          \<longrightarrow> windowTokens sysMsg taskMsg kept \<le> maxTokens (state mm))
    \<and> (\<forall>pre m post. rest = pre @ m # post \<longrightarrow>
          (\<exists>kpre kpost. subseq kpre pre
             \<and> cutLoop (maxTokens (state mm)) (rev post) ([], windowTokens sysMsg taskMsg [])
                 = (kpost, windowTokens sysMsg taskMsg kpost)
             \<and> kept = kpre @ (if windowTokens sysMsg taskMsg kpost + messageTokens (content m)
                                   \<le> maxTokens (state mm) then [m] else []) @ kpost))"
proof -
  let ?c = "maxTokens (state mm)"
  let ?h = "ceil4 (contentLength (content sysMsg)) + ceil4 (contentLength (content taskMsg))"
  obtain kept where loop: "cutLoop ?c (rev rest) ([], ?h) = (kept, windowTokens sysMsg taskMsg kept)"
    and sub: "subseq kept rest"
    using cutLoop_window [of ?c rest sysMsg taskMsg] by blast
  have h0: "windowTokens sysMsg taskMsg [] = ?h" by (simp add: windowTokens_def)
  have res: "cutMessages mm = Inr (mm\<lparr>state := (state mm)\<lparr>history := sysMsg # taskMsg # kept,
                                     currentTokens := windowTokens sysMsg taskMsg kept\<rparr>\<rparr>)"
    using hist over loop by (simp add: cutMessages_def)
  have fits: "windowTokens sysMsg taskMsg kept \<le> ?c"
    if "\<exists>S. subseq S rest \<and> windowTokens sysMsg taskMsg S \<le> ?c"
  proof -
    from that obtain S where "windowTokens sysMsg taskMsg S \<le> ?c" by blast
    moreover have "?h \<le> windowTokens sysMsg taskMsg S"
      using sum_messageTokens_nonneg [of S] by (simp add: windowTokens_def)
    ultimately have "?h \<le> ?c" by linarith
    from cutLoop_fits [OF this, of "rev rest" "[]"] loop show ?thesis by simp
  qed
  have greedy: "\<exists>kpre kpost. subseq kpre pre
             \<and> cutLoop ?c (rev post) ([], windowTokens sysMsg taskMsg [])
                 = (kpost, windowTokens sysMsg taskMsg kpost)
             \<and> kept = kpre @ (if windowTokens sysMsg taskMsg kpost + messageTokens (content m)
                                   \<le> ?c then [m] else []) @ kpost"
    if split: "rest = pre @ m # post" for pre m post
  proof -
    obtain kpost where lp: "cutLoop ?c (rev post) ([], ?h) = (kpost, windowTokens sysMsg taskMsg kpost)"
      using cutLoop_window [of ?c post sysMsg taskMsg] by blast
    from cutLoop_split [OF lp, of pre m] obtain kpre where
      "subseq kpre pre" and
      "fst (cutLoop ?c (rev (pre @ m # post)) ([], ?h))
         = kpre @ (if windowTokens sysMsg taskMsg kpost + messageTokens (content m) \<le> ?c
                   then [m] else []) @ kpost"
      by blast
    with loop split lp h0 show ?thesis by auto
  qed
  from res sub fits greedy show ?thesis by blast
qed

text \<open>
  The scenario of the specification: ceiling 1000, system 200, task 100, five state
  messages of 300 each; the two newest state messages are kept, 900 tokens.
\<close>

theorem cutMessages_scenario_witness:
  "history (state scenarioWindow)
     = textMessage System 800 CHR ''s'' # textMessage User 400 CHR ''t'' #
       [textMessage User 1200 CHR ''a'', textMessage User 1200 CHR ''b'',
        textMessage User 1200 CHR ''c'', textMessage User 1200 CHR ''d'',
        textMessage User 1200 CHR ''e'']
   \<and> maxTokens (state scenarioWindow) < currentTokens (state scenarioWindow)
   \<and> cutMessages scenarioWindow
       = Inr (scenarioWindow\<lparr>state := (state scenarioWindow)
               \<lparr>history := [textMessage System 800 CHR ''s'', textMessage User 400 CHR ''t'',
                            textMessage User 1200 CHR ''d'', textMessage User 1200 CHR ''e''],
                currentTokens := 900\<rparr>\<rparr>)"
proof -
  have h1: "history (state scenarioWindow)
     = textMessage System 800 CHR ''s'' # textMessage User 400 CHR ''t'' #
       [textMessage User 1200 CHR ''a'', textMessage User 1200 CHR ''b'',
        textMessage User 1200 CHR ''c'', textMessage User 1200 CHR ''d'',
        textMessage User 1200 CHR ''e'']"
    by (simp add: scenarioWindow_def)
  have h2: "maxTokens (state scenarioWindow) < currentTokens (state scenarioWindow)"
    by (simp add: scenarioWindow_def)
  from cutMessages_keeps_head_and_fits [OF h1 h2] obtain kept where
    res: "cutMessages scenarioWindow
        = Inr (scenarioWindow\<lparr>state := (state scenarioWindow)
                \<lparr>history := textMessage System 800 CHR ''s'' # textMessage User 400 CHR ''t'' # kept,
                 currentTokens := windowTokens (textMessage System 800 CHR ''s'')
                                    (textMessage User 400 CHR ''t'') kept\<rparr>\<rparr>)"
    by blast
  have ev: "cutMessages scenarioWindow
       = Inr (scenarioWindow\<lparr>state := (state scenarioWindow)
               \<lparr>history := [textMessage System 800 CHR ''s'', textMessage User 400 CHR ''t'',
                            textMessage User 1200 CHR ''d'', textMessage User 1200 CHR ''e''],
                currentTokens := 900\<rparr>\<rparr>)"
    by (simp add: cutMessages_def scenarioWindow_def textMessage_def ceil4_def)
  from h1 h2 ev show ?thesis by blast
qed

text \<open>
  Claim C9. Calling \<open>cutMessages\<close> again on the state that a call returned changes
  nothing: neither the history nor the recorded total (nor any other field). A call
  that raises assigns no field, so there is no state to compare in that case.
\<close>

theorem cutMessages_idempotent:
  assumes "cutMessages mm = Inr mm'"
  shows "cutMessages mm' = Inr mm'"
proof (cases "currentTokens (state mm) \<le> maxTokens (state mm)")
  case True
  with assms show ?thesis by (simp add: cutMessages_def)
next
  case False
  let ?c = "maxTokens (state mm)"
  from False assms obtain sysMsg taskMsg rest where
    hist: "history (state mm) = sysMsg # taskMsg # rest"
    by (auto simp: cutMessages_def split: list.splits)
  let ?h = "ceil4 (contentLength (content sysMsg)) + ceil4 (contentLength (content taskMsg))"
  obtain kept total where loop: "cutLoop ?c (rev rest) ([], ?h) = (kept, total)"
    by (cases "cutLoop ?c (rev rest) ([], ?h)")
  have mm': "mm' = mm\<lparr>state := (state mm)\<lparr>history := sysMsg # taskMsg # kept,
                                          currentTokens := total\<rparr>\<rparr>"
    using False assms hist loop by (simp add: cutMessages_def)
  show ?thesis
  proof (cases "?h \<le> ?c")
    case True
    from cutLoop_fits [OF True, of "rev rest" "[]"] loop have "total \<le> ?c" by simp
    then show ?thesis by (simp add: mm' cutMessages_def)
  next
    case over: False
    then have "cutLoop ?c (rev rest) ([], ?h) = ([], ?h)" by (simp add: cutLoop_over)
    with loop have "kept = []" "total = ?h" by simp_all
    then show ?thesis using over by (simp add: mm' cutMessages_def)
  qed
qed

theorem cutMessages_idempotent_witness:
  "cutMessages gapWindow
     = Inr (gapWindow\<lparr>state := (state gapWindow)
             \<lparr>history := [textMessage System 8 CHR ''s'', textMessage User 8 CHR ''t'',
                          textMessage User 16 CHR ''a'', textMessage Assistant 4 CHR ''b''],
              currentTokens := 9\<rparr>\<rparr>)
   \<and> cutMessages (gapWindow\<lparr>state := (state gapWindow)
             \<lparr>history := [textMessage System 8 CHR ''s'', textMessage User 8 CHR ''t'',
                          textMessage User 16 CHR ''a'', textMessage Assistant 4 CHR ''b''],
              currentTokens := 9\<rparr>\<rparr>)
     = Inr (gapWindow\<lparr>state := (state gapWindow)
             \<lparr>history := [textMessage System 8 CHR ''s'', textMessage User 8 CHR ''t'',
                          textMessage User 16 CHR ''a'', textMessage Assistant 4 CHR ''b''],
              currentTokens := 9\<rparr>\<rparr>)"
proof -
  have ev: "cutMessages gapWindow
     = Inr (gapWindow\<lparr>state := (state gapWindow)
             \<lparr>history := [textMessage System 8 CHR ''s'', textMessage User 8 CHR ''t'',
                          textMessage User 16 CHR ''a'', textMessage Assistant 4 CHR ''b''],
              currentTokens := 9\<rparr>\<rparr>)"
    by (simp add: cutMessages_def gapWindow_def textMessage_def ceil4_def)
  from ev cutMessages_idempotent [OF ev] show ?thesis by simp
qed

section \<open>Properties of the element hash and of batch dispatch\<close>

lemma string_of_nat_digit: "n < 10 \<Longrightarrow> string_of_nat n = [digit_char n]"
  by (simp add: string_of_nat.simps)

lemma pathHashes_single:
  "pathHashes [(i, DOMElementNode e cs)]
     = [''branch-'' @ tagName e @ ''-'' @ string_of_nat (length cs)]"
  by (simp add: pathHashes_def List.map_filter_def hashDomElement_def)

lemma pathHashes_Cons:
  "pathHashes ((i, DOMElementNode e cs) # sm)
     = (''branch-'' @ tagName e @ ''-'' @ string_of_nat (length cs)) # pathHashes sm"
  by (simp add: pathHashes_def List.map_filter_def hashDomElement_def)

lemma pathHashes_Nil: "pathHashes [] = []"
  by (simp add: pathHashes_def List.map_filter_def)

text \<open>
  Claim C10. The hash that the new-element check of \<open>multiAct\<close> reads from an
  element has the branch-path component \<^verbatim>\<open>'branch-' + tagName + '-' + children.length\<close>.
  Hence two elements with the same tag name and the same number of children have equal
  branch-path components, and the check sees the same hash for them, whatever their
  attributes, ancestors, highlight index or xpath.
\<close>

theorem hash_branchPathHash_by_tag_and_child_count:
  "map_option branchPathHash (hash (DOMElementNode e cs))
     = Some (''branch-'' @ tagName e @ ''-'' @ string_of_nat (length cs))
   \<and> (tagName e = tagName e' \<and> length cs = length cs'
        \<longrightarrow> map_option branchPathHash (hash (DOMElementNode e cs))
              = map_option branchPathHash (hash (DOMElementNode e' cs'))
          \<and> pathHashes [(i, DOMElementNode e cs)] = pathHashes [(j, DOMElementNode e' cs')])"
  by (simp add: hashDomElement_def pathHashes_single)

text \<open>
  Two buttons with one child each: different attributes, index, xpath and child, hence
  different hash triples, yet the same branch-path component.
\<close>

theorem hash_branchPathHash_witness:
  "hash saveButton \<noteq> hash menuButton
   \<and> map_option branchPathHash (hash saveButton) = Some ''branch-button-1''
   \<and> map_option branchPathHash (hash menuButton) = Some ''branch-button-1''
   \<and> pathHashes [(0, saveButton)] = pathHashes [(7, menuButton)]"
proof -
  let ?e = "element ''button'' (Some 0) [(''id'', ''save'')]"
  let ?cs = "[DOMTextNode True ''Save'']"
  let ?e' = "(element ''button'' (Some 7) [(''class'', ''menu'')])\<lparr>xpath := ''/html/body/nav/button''\<rparr>"
  let ?cs' = "[DOMElementNode (element ''svg'' None []) []]"
  have tag: "tagName ?e = tagName ?e' \<and> length ?cs = length ?cs'"
    by (simp add: element_def)
  from hash_branchPathHash_by_tag_and_child_count [of ?e ?cs ?e' ?cs' 0 7] tag
  have "pathHashes [(0, DOMElementNode ?e ?cs)] = pathHashes [(7, DOMElementNode ?e' ?cs')]"
    by blast
  then have eq: "pathHashes [(0, saveButton)] = pathHashes [(7, menuButton)]"
    by (simp add: saveButton_def menuButton_def)
  have one: "string_of_nat (Suc 0) = ''1''"
    by (simp add: string_of_nat_digit digit_char_def)
  have b1: "map_option branchPathHash (hash saveButton) = Some ''branch-button-1''"
    by (simp add: saveButton_def element_def hashDomElement_def one)
  have b2: "map_option branchPathHash (hash menuButton) = Some ''branch-button-1''"
    by (simp add: menuButton_def element_def hashDomElement_def one)
  have ne: "hash saveButton \<noteq> hash menuButton"
    by (simp add: saveButton_def menuButton_def element_def hashDomElement_def)
  from eq b1 b2 ne show ?thesis by simp
qed

lemma multiActLoop_runs_earlier:
  assumes "length rs = length earlier"
      and "\<forall>j < length earlier.
             \<not> interrupted env (i + j) \<and> actionType (earlier ! j) \<noteq> None
             \<and> executeAction env (i + j) (earlier ! j) = Inr (rs ! j)
             \<and> \<not> isDone (rs ! j) \<and> \<not> truthy (error (rs ! j))
             \<and> (0 < i + j \<and> declaresIndex (earlier ! j)
                  \<longrightarrow> isSubset (pathHashes (getState env (Suc (i + j)))) cached)"
      and "i + length earlier < n"
  shows "multiActLoop env chk cached n i (earlier @ rest) (results, dispatched)
       = multiActLoop env chk cached n (i + length earlier) rest
           (results @ rs, dispatched @ [i ..< i + length earlier])"
  using assms
proof (induction earlier arbitrary: i rs results dispatched)
  case Nil
  then show ?case by simp
next
  case (Cons a earlier)
  from Cons.prems(1) obtain r rs' where rs: "rs = r # rs'" "length rs' = length earlier"
    by (cases rs) auto
  from Cons.prems(2) [rule_format, of 0] rs
  have a: "\<not> interrupted env i" "actionType a \<noteq> None" "executeAction env i a = Inr r"
          "\<not> isDone r" "\<not> truthy (error r)"
          "0 < i \<and> declaresIndex a \<longrightarrow> isSubset (pathHashes (getState env (Suc i))) cached"
    by simp_all
  from a(2) obtain ty where ty: "actionType a = Some ty" by blast
  have notlast: "i \<noteq> n - 1" using Cons.prems(3) by simp
  have step: "multiActLoop env chk cached n i ((a # earlier) @ rest) (results, dispatched)
            = multiActLoop env chk cached n (Suc i) (earlier @ rest) (results @ [r], dispatched @ [i])"
    using a ty notlast by auto
  have rest: "\<forall>j < length earlier.
             \<not> interrupted env (Suc i + j) \<and> actionType (earlier ! j) \<noteq> None
             \<and> executeAction env (Suc i + j) (earlier ! j) = Inr (rs' ! j)
             \<and> \<not> isDone (rs' ! j) \<and> \<not> truthy (error (rs' ! j))
             \<and> (0 < Suc i + j \<and> declaresIndex (earlier ! j)
                  \<longrightarrow> isSubset (pathHashes (getState env (Suc (Suc i + j)))) cached)"
  proof (intro allI impI)
    fix j assume "j < length earlier"
    then have "Suc j < length (a # earlier)" by simp
    from Cons.prems(2) [rule_format, OF this] rs show
      "\<not> interrupted env (Suc i + j) \<and> actionType (earlier ! j) \<noteq> None
             \<and> executeAction env (Suc i + j) (earlier ! j) = Inr (rs' ! j)
             \<and> \<not> isDone (rs' ! j) \<and> \<not> truthy (error (rs' ! j))
             \<and> (0 < Suc i + j \<and> declaresIndex (earlier ! j)
                  \<longrightarrow> isSubset (pathHashes (getState env (Suc (Suc i + j)))) cached)"
      by simp
  qed
  have "Suc i + length earlier < n" using Cons.prems(3) by simp
  from Cons.IH [OF rs(2) rest this, of "results @ [r]" "dispatched @ [i]"]
  have "multiActLoop env chk cached n (Suc i) (earlier @ rest) (results @ [r], dispatched @ [i])
      = multiActLoop env chk cached n (Suc i + length earlier) rest
           ((results @ [r]) @ rs', (dispatched @ [i]) @ [Suc i ..< Suc i + length earlier])" .
  moreover have "[i ..< i + length (a # earlier)] = i # [Suc i ..< Suc i + length earlier]"
    by (subst upt_rec) simp
  ultimately show ?case using step rs by simp
qed

text \<open>
  Claim C1, as the code has it. With \<^verbatim>\<open>checkForNewElements\<close> enabled, let the
  actions \<open>earlier\<close> (at least one) all be dispatched without ending the batch, with
  results \<open>rs\<close>, and let the next action declare a non-null index. If the hashes
  recomputed from the current selector map are not a subset of the hashes cached at
  batch start (some hash is new), the batch stops there: exactly one informational
  result follows the results of the earlier actions, and only the earlier actions were
  dispatched, so neither that action nor any later one runs.
\<close>

theorem multiAct_stops_when_new_hash_appears:
  assumes split: "actions = earlier @ action # later"
      and nonempty: "earlier \<noteq> []"
      and idx: "declaresIndex action"
      and new: "\<not> isSubset (pathHashes (getState env (Suc (length earlier))))
                           (pathHashes (getState env 0))"
      and len: "length rs = length earlier"
      and run: "\<forall>j < length earlier.
             \<not> interrupted env j \<and> actionType (earlier ! j) \<noteq> None
             \<and> executeAction env j (earlier ! j) = Inr (rs ! j)
             \<and> \<not> isDone (rs ! j) \<and> \<not> truthy (error (rs ! j))
             \<and> (0 < j \<and> declaresIndex (earlier ! j)
                  \<longrightarrow> isSubset (pathHashes (getState env (Suc j))) (pathHashes (getState env 0)))"
  shows "multiAct env actions True
       = Inr (rs @ [newElementsResult (length earlier) (length actions)], [0 ..< length earlier])"
proof -
  let ?cached = "pathHashes (getState env 0)"
  have lt: "0 + length earlier < length actions" using split by simp
  have run0: "\<forall>j < length earlier.
             \<not> interrupted env (0 + j) \<and> actionType (earlier ! j) \<noteq> None
             \<and> executeAction env (0 + j) (earlier ! j) = Inr (rs ! j)
             \<and> \<not> isDone (rs ! j) \<and> \<not> truthy (error (rs ! j))
             \<and> (0 < 0 + j \<and> declaresIndex (earlier ! j)
                  \<longrightarrow> isSubset (pathHashes (getState env (Suc (0 + j)))) ?cached)"
    using run by simp
  have "multiAct env actions True
      = multiActLoop env True ?cached (length actions) (0 + length earlier) (action # later)
          ([] @ rs, [] @ [0 ..< 0 + length earlier])"
    unfolding multiAct_def split [symmetric]
    using multiActLoop_runs_earlier [OF len run0 lt, of True "action # later" "[]" "[]"] split
    by simp
  also have "\<dots> = Inr (rs @ [newElementsResult (length earlier) (length actions)],
                        [0 ..< length earlier])"
    using idx new nonempty by simp
  finally show ?thesis .
qed

text \<open>
  The scenario of the specification: three actions, the second declares an index, a new
  hash appears after the first action. The batch returns the first result and the
  informational result; only action \<open>0\<close> was dispatched.
\<close>

theorem multiAct_scenario_witness:
  "[clickAction 0, clickAction 1, scrollAction] = [clickAction 0] @ clickAction 1 # [scrollAction]
   \<and> declaresIndex (clickAction 1)
   \<and> \<not> isSubset (pathHashes (getState dialogEnv 2)) (pathHashes (getState dialogEnv 0))
   \<and> multiAct dialogEnv [clickAction 0, clickAction 1, scrollAction] True
       = Inr ([okResult, newElementsResult 1 3], [0])"
proof -
  have idx: "declaresIndex (clickAction 1)"
    by (simp add: declaresIndex_def clickAction_def)
  have new: "\<not> isSubset (pathHashes (getState dialogEnv (Suc (length [clickAction 0]))))
                           (pathHashes (getState dialogEnv 0))"
    by (simp add: dialogEnv_def isSubset_def pathHashes_Cons pathHashes_Nil element_def)
  have run: "\<forall>j < length [clickAction 0].
             \<not> interrupted dialogEnv j \<and> actionType ([clickAction 0] ! j) \<noteq> None
             \<and> executeAction dialogEnv j ([clickAction 0] ! j) = Inr ([okResult] ! j)
             \<and> \<not> isDone ([okResult] ! j) \<and> \<not> truthy (error ([okResult] ! j))
             \<and> (0 < j \<and> declaresIndex ([clickAction 0] ! j)
                  \<longrightarrow> isSubset (pathHashes (getState dialogEnv (Suc j)))
                                 (pathHashes (getState dialogEnv 0)))"
    by (simp add: dialogEnv_def clickAction_def okResult_def truthy_def)
  from multiAct_stops_when_new_hash_appears
         [of "[clickAction 0, clickAction 1, scrollAction]" "[clickAction 0]" "clickAction 1"
             "[scrollAction]" dialogEnv "[okResult]", OF _ _ idx new _ run]
  have "multiAct dialogEnv [clickAction 0, clickAction 1, scrollAction] True
       = Inr ([okResult, newElementsResult 1 3], [0])"
    by (simp add: numeral_3_eq_3)
  with idx new show ?thesis by (simp add: numeral_2_eq_2)
qed

text \<open>
  The claim as worded stops the batch when the new set is not a superset of the cached
  set. Here an element has left the page, so the new set is not a superset of the cached
  one, and the second action declares an index: the batch does not stop, both actions
  are dispatched.
\<close>

theorem multiAct_not_superset_counterexample:
  "declaresIndex (clickAction 0)
   \<and> \<not> set (pathHashes (getState vanishEnv 0)) \<subseteq> set (pathHashes (getState vanishEnv 2))
   \<and> multiAct vanishEnv [clickAction 0, clickAction 0] True
       = Inr ([okResult, okResult], [0, 1])"
proof -
  have idx: "declaresIndex (clickAction 0)"
    by (simp add: declaresIndex_def clickAction_def)
  have sup: "\<not> set (pathHashes (getState vanishEnv 0)) \<subseteq> set (pathHashes (getState vanishEnv 2))"
    by (simp add: vanishEnv_def pathHashes_Cons pathHashes_Nil element_def)
  have run: "multiAct vanishEnv [clickAction 0, clickAction 0] True
       = Inr ([okResult, okResult], [0, 1])"
    by (simp add: multiAct_def vanishEnv_def clickAction_def declaresIndex_def isSubset_def
          pathHashes_Cons pathHashes_Nil element_def okResult_def truthy_def)
  from idx sup run show ?thesis by simp
qed

section \<open>Properties of the step orchestrator\<close>

lemma addPlan_appends:
  "p \<noteq> [] \<Longrightarrow> history (state (addPlan (Some p) (-1) mm))
     = history (state mm) @ [\<lparr>role = User, content = Str (''Plan: '' @ p)\<rparr>]"
  by (simp add: addPlan_def addMessageWithTokens_def)

lemma stepAddContext_plan_last:
  assumes "plannerLlm (agentSettings ag)" and "plannerInterval (agentSettings ag) \<noteq> 0"
      and "nSteps (agentState ag) mod plannerInterval (agentSettings ag) = 0"
      and "p \<noteq> []" and "sensitiveData (settings (messageManager ag)) = None"
  shows "\<exists>ag'. stepAddContext engine stateMessage (Some p) ag = Inr ag'
           \<and> history (state (messageManager ag'))
               = history (state (messageManager ag))
                 @ [stateMessage, \<lparr>role = User, content = Str (''Plan: '' @ p)\<rparr>]"
  using assms
  by (simp add: stepAddContext_def addStateMessage_def addPlan_appends addMessageWithTokens_def)

text \<open>
  Claim C5 at a concrete step: a planner is configured with interval 2, the step counter
  is 4 and the planner returns the plan \<^verbatim>\<open>go\<close>. After the context part of the step
  the plan message is the last message of the history and the state message stands
  before it.
\<close>

theorem step_plan_after_state_message:
  "(case stepAddContext rejectingEngine (textMessage User 8 CHR ''p'') (Some ''go'') plannerAgent of
      Inl e \<Rightarrow> []
    | Inr ag \<Rightarrow> history (state (messageManager ag)))
   = [textMessage System 8 CHR ''s'', textMessage User 8 CHR ''t'',
      textMessage User 8 CHR ''p'', \<lparr>role = User, content = Str ''Plan: go''\<rparr>]"
  by (simp add: stepAddContext_def addStateMessage_def addPlan_def addMessageWithTokens_def
        plannerAgent_def plainSettings_def)

lemma cutMessages_keeps_ceiling:
  "cutMessages mm = Inr mm' \<Longrightarrow> maxTokens (state mm') = maxTokens (state mm)"
  by (auto simp: cutMessages_def split: if_splits list.splits prod.splits)

lemma cutMessages_reads_state_only:
  "cutMessages (mm\<lparr>settings := s\<rparr>) = map_sum id (\<lambda>m. m\<lparr>settings := s\<rparr>) (cutMessages mm)"
  by (auto simp: cutMessages_def split: list.splits prod.splits)

lemma handleStepError_keeps_ceiling:
  "handleStepError includeTrace err ag = Inr (rs, ag')
     \<Longrightarrow> maxTokens (state (messageManager ag')) = maxTokens (state (messageManager ag))"
  by (auto simp: handleStepError_def bumpFailures_def Let_def
           split: if_splits sum.splits dest!: cutMessages_keeps_ceiling)

text \<open>
  Claim C6 at a concrete failure: ceiling 1000, a history of 900 estimated tokens, and a
  validation error with the token-limit marker. The handler writes 500 into the
  settings of the message manager and counts the failure; the ceiling
  \<open>maxTokens\<close> that \<open>cutMessages\<close> compares with stays 1000, and the history and
  its recorded total of 900 are returned unchanged.
\<close>

theorem handleStepError_token_limit_no_trim:
  "handleStepError False tokenLimitError tokenLimitAgent
     = Inr ([errorResult ''Max token limit reached''],
            bumpFailures (tokenLimitAgent\<lparr>messageManager :=
              (messageManager tokenLimitAgent)\<lparr>settings := plainSettings\<lparr>maxInputTokens := 500\<rparr>\<rparr>\<rparr>))
   \<and> maxTokens (state (messageManager tokenLimitAgent)) = 1000
   \<and> currentTokens (state (messageManager tokenLimitAgent)) = 900
   \<and> length (history (state (messageManager tokenLimitAgent))) = 4"
  by (simp add: handleStepError_def formatError_def tokenLimitError_def tokenLimitAgent_def
        cutMessages_def)

section \<open>Properties of the snapshot builder\<close>

subsection \<open>The first pass\<close>










subsection \<open>The second pass\<close>


















subsection \<open>The selector map and the returned tree\<close>








text \<open>
  Inherited keys: the root id \<^verbatim>\<open>constructor\<close> returns the built-in object found
  under it; the child id \<^verbatim>\<open>constructor\<close> makes that object a child of the body;
  the child id \<^verbatim>\<open>__proto__\<close> makes the second pass write to
  \<^verbatim>\<open>Object.prototype\<close>.
\<close>

lemma inheritedKeys_eval:
  "(case constructDomTree (Some inheritedRootPage) of
      Built t \<Rightarrow> treeRoot t = NodeRef (Builtin ''constructor'')
    | PrototypeWritten \<Rightarrow> False)
   \<and> (case constructDomTree (Some inheritedChildPage) of
        Built t \<Rightarrow>
          treeRoot t = NodeRef (Created ''0'')
          \<and> map_option childRefs (nodeMap t (Created ''0'')) = Some [Builtin ''constructor'']
          \<and> map_option parentRef (nodeMap t (Builtin ''constructor'')) = Some (Some (Created ''0''))
      | PrototypeWritten \<Rightarrow> False)
   \<and> (case constructDomTree (Some protoChildPage) of
        Built t \<Rightarrow> False
      | PrototypeWritten \<Rightarrow> True)"
  by code_simp

subsection \<open>Malformed payloads\<close>

text \<open>
  Claim C8. For a payload that is absent, or lacks the node map, or lacks the root id,
  \<open>_constructDomTree\<close> returns the placeholder \<^verbatim>\<open>body\<close> element, which has
  no children, with an empty selector map, and \<open>_buildDomTree\<close> hands exactly this
  result to its caller. Both functions are total: no error is raised.
\<close>

theorem constructDomTree_malformed_payload:
  assumes "evalPage = None \<or> (\<exists>ep. evalPage = Some ep \<and> (pageMap ep = None \<or> rootId ep = None))"
  shows "constructDomTree evalPage
           = Built \<lparr>treeRoot = Placeholder placeholderBody, selectorMap = Map.empty, nodeMap = Map.empty\<rparr>
       \<and> buildDomTree (Inr 2) (Inr evalPage)
           = Built \<lparr>treeRoot = Placeholder placeholderBody, selectorMap = Map.empty, nodeMap = Map.empty\<rparr>"
  using assms
  by (auto simp: constructDomTree_def buildDomTree_def degradedTree_def split: option.splits)

text \<open>A payload with a node map and no root id.\<close>

theorem constructDomTree_malformed_witness:
  "rootId rootlessPage = None
   \<and> pageMap rootlessPage \<noteq> None
   \<and> buildDomTree (Inr 2) (Inr (Some rootlessPage))
       = Built \<lparr>treeRoot = Placeholder placeholderBody, selectorMap = Map.empty, nodeMap = Map.empty\<rparr>"
proof -
  have r: "rootId rootlessPage = None" and m: "pageMap rootlessPage \<noteq> None"
    by (simp_all add: rootlessPage_def)
  from r have "Some rootlessPage = None
      \<or> (\<exists>ep. Some rootlessPage = Some ep \<and> (pageMap ep = None \<or> rootId ep = None))"
    by simp
  from constructDomTree_malformed_payload [OF this] r m show ?thesis by simp
qed

section \<open>Properties of redaction\<close>

lemma replaceLiteral_no_occurrence:
  "\<not> sublist v s \<Longrightarrow> replaceLiteral v r s = s"
proof (induction s)
  case Nil
  then show ?case by simp
next
  case (Cons c cs)
  then have "\<not> prefix v (c # cs)" and "\<not> sublist v cs"
    by (auto simp: sublist_Cons_right)
  with Cons.IH show ?case by simp
qed

lemma prefix_of_front:
  assumes "prefix v (xs @ ys)" and "length v \<le> length xs"
  shows "prefix v xs"
  using assms by (metis prefix_append prefix_length_le prefix_order.eq_iff append_prefixD
      prefix_def append_eq_append_conv_if append_take_drop_id)

lemma replaceLiteral_leftmost:
  assumes "v \<noteq> []" and "\<not> sublist v (p @ butlast v)"
  shows "replaceLiteral v r (p @ v @ q) = p @ r @ replaceLiteral v r q"
  using assms(2)
proof (induction p)
  case Nil
  from assms(1) obtain c cs where v: "v = c # cs" by (cases v) auto
  have "replaceLiteral v r (v @ q) = r @ replaceLiteral v r (drop (length v) (v @ q))"
    using v by simp
  then show ?case by simp
next
  case (Cons c p)
  have split: "(c # p) @ v @ q = ((c # p) @ butlast v) @ (last v # q)"
    using assms(1) by simp
  have "\<not> prefix v ((c # p) @ v @ q)"
  proof
    assume "prefix v ((c # p) @ v @ q)"
    then have "prefix v (((c # p) @ butlast v) @ (last v # q))" by (simp only: split)
    moreover have "length v \<le> length ((c # p) @ butlast v)" by simp
    ultimately have "prefix v ((c # p) @ butlast v)" by (rule prefix_of_front)
    then have "sublist v ((c # p) @ butlast v)" by (rule prefix_imp_sublist)
    with Cons.prems show False by simp
  qed
  moreover have "\<not> sublist v (p @ butlast v)"
    using Cons.prems by (auto simp: sublist_Cons_right)
  ultimately show ?case using Cons.IH by simp
qed

lemma leftmost_occurrence:
  assumes "v \<noteq> []" and "sublist v s"
  shows "\<exists>p q. s = p @ v @ q \<and> \<not> sublist v (p @ butlast v)"
  using assms(2)
proof (induction s)
  case Nil
  with assms(1) show ?case by simp
next
  case (Cons c cs)
  show ?case
  proof (cases "prefix v (c # cs)")
    case True
    then obtain q where "c # cs = v @ q" by (auto simp: prefix_def)
    moreover have "\<not> sublist v (butlast v)"
    proof
      assume "sublist v (butlast v)"
      then have "length v \<le> length (butlast v)" by (rule sublist_length_le)
      moreover from assms(1) have "length (butlast v) < length v"
        by (cases v rule: rev_cases) simp_all
      ultimately show False by linarith
    qed
    ultimately show ?thesis by (intro exI [of _ "[]"] exI [of _ q]) simp
  next
    case False
    with Cons.prems have "sublist v cs" by (simp add: sublist_Cons_right)
    from Cons.IH [OF this] obtain p q where
      pq: "cs = p @ v @ q" "\<not> sublist v (p @ butlast v)" by blast
    have "\<not> prefix v ((c # p) @ butlast v)"
    proof
      assume "prefix v ((c # p) @ butlast v)"
      moreover have "prefix ((c # p) @ butlast v) (c # cs)"
        using pq(1) assms(1)
        by (metis append.assoc append_Cons append_butlast_last_id prefixI)
      ultimately have "prefix v (c # cs)" by (rule prefix_order.trans)
      with False show False ..
    qed
    with pq(2) have "\<not> sublist v ((c # p) @ butlast v)"
      by (simp add: sublist_Cons_right)
    with pq(1) show ?thesis by (intro exI [of _ "c # p"] exI [of _ q]) simp
  qed
qed

lemma replaceLiteral_replacedAll:
  assumes "v \<noteq> []"
  shows "replacedAll v r s (replaceLiteral v r s)"
proof (induction "length s" arbitrary: s rule: less_induct)
  case less
  show ?case
  proof (cases "sublist v s")
    case False
    then show ?thesis by (simp add: replaceLiteral_no_occurrence replacedAll.none)
  next
    case True
    from leftmost_occurrence [OF assms True] obtain p q where
      pq: "s = p @ v @ q" "\<not> sublist v (p @ butlast v)" by blast
    have "length q < length s" using pq(1) assms by simp
    from less [OF this] have "replacedAll v r q (replaceLiteral v r q)" .
    from replacedAll.first [OF pq(2) this]
    show ?thesis by (simp add: pq(1) replaceLiteral_leftmost [OF assms pq(2)])
  qed
qed

lemma redactedMarker_no_dollar:
  "CHR ''$'' \<notin> set key \<Longrightarrow> CHR ''$'' \<notin> set (redactedMarker key)"
  by (simp add: redactedMarker_def)

lemma redactString_redactedBy:
  assumes "\<forall>e\<in>set sd. snd e = [] \<or> (literalPattern (snd e) \<and> CHR ''$'' \<notin> set (fst e))"
  shows "\<exists>t. redactString engine sd s = Inr t \<and> redactedBy sd s t"
  using assms
proof (induction sd arbitrary: s)
  case Nil
  then show ?case by (simp add: redactedBy.finished)
next
  case (Cons e rest)
  obtain key val where e: "e = (key, val)" by (cases e)
  from Cons.prems have rest: "\<forall>e\<in>set rest. snd e = [] \<or> (literalPattern (snd e) \<and> CHR ''$'' \<notin> set (fst e))"
    by simp
  show ?case
  proof (cases "val = []")
    case True
    from Cons.IH [OF rest, of s] obtain t where
      "redactString engine rest s = Inr t" "redactedBy rest s t" by blast
    with True e show ?thesis by (auto intro: redactedBy.skipped)
  next
    case False
    with Cons.prems e have lit: "literalPattern val" and nd: "CHR ''$'' \<notin> set key" by auto
    let ?s' = "replaceLiteral val (redactedMarker key) s"
    have one: "regexReplaceAll engine val (redactedMarker key) s = Inr ?s'"
      using lit redactedMarker_no_dollar [OF nd] by (simp add: regexReplaceAll_def)
    have spec: "replacedAll val (redactedMarker key) s ?s'"
      using False by (rule replaceLiteral_replacedAll)
    from Cons.IH [OF rest, of ?s'] obtain t where
      t: "redactString engine rest ?s' = Inr t" "redactedBy rest ?s' t" by blast
    from redactedBy.applied [OF False spec t(2)] have "redactedBy ((key, val) # rest) s t" .
    with False e one t(1) show ?thesis by simp
  qed
qed

lemma redactParts_redacted:
  assumes "\<forall>e\<in>set sd. snd e = [] \<or> (literalPattern (snd e) \<and> CHR ''$'' \<notin> set (fst e))"
  shows "\<exists>ps'. redactParts engine sd ps = Inr ps' \<and> list_all2 (redactedPart sd) ps ps'"
proof (induction ps)
  case Nil
  then show ?case by simp
next
  case (Cons p ps)
  then obtain ps' where ps': "redactParts engine sd ps = Inr ps'" "list_all2 (redactedPart sd) ps ps'"
    by blast
  show ?case
  proof (cases "\<exists>t. p = TextPart (Some t)")
    case True
    then obtain t where p: "p = TextPart (Some t)" by blast
    from redactString_redactedBy [OF assms, of engine t] obtain t' where
      "redactString engine sd t = Inr t'" "redactedBy sd t t'" by blast
    with p ps' show ?thesis by simp
  next
    case False
    have "redactParts engine sd (p # ps) = Inr (p # ps') \<and> redactedPart sd p p"
    proof (cases p)
      case (TextPart t)
      with False have "t = None" by (cases t) auto
      with TextPart ps'(1) show ?thesis by simp
    next
      case (ImagePart u)
      with ps'(1) show ?thesis by simp
    next
      case (OtherPart ty)
      with ps'(1) show ?thesis by simp
    qed
    with ps'(2) show ?thesis by simp
  qed
qed

lemma redactSensitiveData_redacted:
  assumes "sensitiveData (settings mm) = Some sd"
      and "\<forall>e\<in>set sd. snd e = [] \<or> (literalPattern (snd e) \<and> CHR ''$'' \<notin> set (fst e))"
  shows "\<exists>c'. redactSensitiveData engine mm c = Inr c' \<and> redactedContent sd c c'"
proof (cases c)
  case (Str s)
  from redactString_redactedBy [OF assms(2), of engine s] obtain t where
    "redactString engine sd s = Inr t" "redactedBy sd s t" by blast
  with Str assms(1) show ?thesis by (simp add: redactSensitiveData_def)
next
  case (Parts ps)
  from redactParts_redacted [OF assms(2), of engine ps] obtain ps' where
    "redactParts engine sd ps = Inr ps'" "list_all2 (redactedPart sd) ps ps'" by blast
  with Parts assms(1) show ?thesis by (simp add: redactSensitiveData_def)
qed

text \<open>
  Claim C7, as the code has it. Let a sensitive-data mapping be configured in which
  every non-empty value is free of regular-expression syntax characters and its label
  free of \<^verbatim>\<open>$\<close>. Then \<open>addStateMessage\<close> returns normally and appends one
  message to the history, leaving the earlier messages as they were; its content is the
  content of the state message, redacted: in plain-string content and in every text
  segment of list content the entries are applied one after the other in the order of
  the mapping, each replacing every occurrence of its value, taken from left to right
  without overlap in the text as the earlier entries left it, by
  \<^verbatim>\<open>[REDACTED:label]\<close>. The history initialisation (system and task message), the
  model output, a new task and a plan are stored as given, whatever the mapping.
\<close>

theorem addStateMessage_redacts_in_order:
  assumes "sensitiveData (settings mm) = Some sd"
      and "\<forall>e\<in>set sd. snd e = [] \<or> (literalPattern (snd e) \<and> CHR ''$'' \<notin> set (fst e))"
  shows "(\<exists>c' mm'. addStateMessage engine message mm = Inr mm'
            \<and> redactedContent sd (content message) c'
            \<and> history (state mm') = history (state mm) @ [message\<lparr>content := c'\<rparr>])
       \<and> history (state (initializeHistory mm))
           = history (state mm) @ [systemMessage mm, \<lparr>role = User, content = Str (taskContent mm)\<rparr>]
       \<and> history (state (addModelOutput json mm))
           = history (state mm) @ [\<lparr>role = Assistant, content = Str json\<rparr>]
       \<and> history (state (addNewTask newTask mm))
           = history (state mm) @ [\<lparr>role = User, content = Str (''New task: '' @ newTask)\<rparr>]
       \<and> history (state (addPlan (Some (c # plan)) (-1) mm))
           = history (state mm) @ [\<lparr>role = User, content = Str (''Plan: '' @ c # plan)\<rparr>]"
proof -
  from redactSensitiveData_redacted [OF assms, of engine "content message"] obtain c' where
    c': "redactSensitiveData engine mm (content message) = Inr c'"
        "redactedContent sd (content message) c'" by blast
  have "addStateMessage engine message mm = Inr (addMessageWithTokens (message\<lparr>content := c'\<rparr>) mm)"
    using assms(1) c'(1) by (simp add: addStateMessage_def)
  moreover have "history (state (addMessageWithTokens (message\<lparr>content := c'\<rparr>) mm))
      = history (state mm) @ [message\<lparr>content := c'\<rparr>]"
    by (simp add: addMessageWithTokens_def)
  ultimately have first: "\<exists>c' mm'. addStateMessage engine message mm = Inr mm'
            \<and> redactedContent sd (content message) c'
            \<and> history (state mm') = history (state mm) @ [message\<lparr>content := c'\<rparr>]"
    using c'(2) by blast
  have others: "history (state (initializeHistory mm))
           = history (state mm) @ [systemMessage mm, \<lparr>role = User, content = Str (taskContent mm)\<rparr>]"
       "history (state (addModelOutput json mm))
           = history (state mm) @ [\<lparr>role = Assistant, content = Str json\<rparr>]"
       "history (state (addNewTask newTask mm))
           = history (state mm) @ [\<lparr>role = User, content = Str (''New task: '' @ newTask)\<rparr>]"
       "history (state (addPlan (Some (c # plan)) (-1) mm))
           = history (state mm) @ [\<lparr>role = User, content = Str (''Plan: '' @ c # plan)\<rparr>]"
    by (simp_all add: initializeHistory_def addModelOutput_def addNewTask_def addPlan_def
          addMessageWithTokens_def taskContent_def)
  from first others show ?thesis by blast
qed

lemma secrets_parts_eval:
  "addStateMessage rejectingEngine
     \<lparr>role = User, content = Parts [TextPart (Some ''abc and abc''), ImagePart ''png'']\<rparr> secretsManager
     = Inr (addMessageWithTokens
         \<lparr>role = User, content = Parts [TextPart (Some ''[REDACTED:user] and [REDACTED:user]''),
                                         ImagePart ''png'']\<rparr> secretsManager)"
  by code_simp

text \<open>
  A state message with list content: both occurrences of the first secret in the text
  segment are replaced, the image segment is kept.
\<close>

theorem addStateMessage_redacts_witness:
  "sensitiveData (settings secretsManager) = Some [(''user'', ''abc''), (''pass'', ''abcdef'')]
   \<and> literalPattern ''abc'' \<and> literalPattern ''abcdef''
   \<and> redactedContent [(''user'', ''abc''), (''pass'', ''abcdef'')]
        (Parts [TextPart (Some ''abc and abc''), ImagePart ''png''])
        (Parts [TextPart (Some ''[REDACTED:user] and [REDACTED:user]''), ImagePart ''png''])"
proof -
  let ?sd = "[(''user'', ''abc''), (''pass'', ''abcdef'')]"
  let ?msg = "\<lparr>role = User, content = Parts [TextPart (Some ''abc and abc''), ImagePart ''png'']\<rparr>"
  have sd: "sensitiveData (settings secretsManager) = Some ?sd"
    by (simp add: secretsManager_def plainSettings_def)
  have lit: "literalPattern ''abc''" "literalPattern ''abcdef''"
    by (simp_all add: literalPattern_def regexSyntaxChars_def)
  then have ok: "\<forall>e\<in>set ?sd. snd e = [] \<or> (literalPattern (snd e) \<and> CHR ''$'' \<notin> set (fst e))"
    by simp
  from addStateMessage_redacts_in_order [OF sd ok, of rejectingEngine ?msg]
  obtain c' mm' where
    r: "addStateMessage rejectingEngine ?msg secretsManager = Inr mm'"
       "redactedContent ?sd (content ?msg) c'"
       "history (state mm') = history (state secretsManager) @ [?msg\<lparr>content := c'\<rparr>]"
    by blast
  from r(1) secrets_parts_eval have
    "mm' = addMessageWithTokens
         \<lparr>role = User, content = Parts [TextPart (Some ''[REDACTED:user] and [REDACTED:user]''),
                                         ImagePart ''png'']\<rparr> secretsManager"
    by simp
  with r(3) have "c' = Parts [TextPart (Some ''[REDACTED:user] and [REDACTED:user]''), ImagePart ''png'']"
    by (simp add: addMessageWithTokens_def)
  with r(2) sd lit show ?thesis by simp
qed

text \<open>
  Not every occurrence of every value is replaced by its own marker. The password
  \<^verbatim>\<open>abcdef\<close> occurs in the text; the entry before it rewrites its first three
  characters, and the stored message holds no marker of the password and still shows
  its last three characters.
\<close>

theorem addStateMessage_overlapping_secrets_counterexample:
  "sublist ''abcdef'' ''login abcdef''
   \<and> addStateMessage rejectingEngine \<lparr>role = User, content = Str ''login abcdef''\<rparr> secretsManager
       = Inr (addMessageWithTokens \<lparr>role = User, content = Str ''login [REDACTED:user]def''\<rparr>
                secretsManager)
   \<and> \<not> sublist ''[REDACTED:pass]'' ''login [REDACTED:user]def''"
  by code_simp

section \<open>Properties of the history tree processor\<close>

lemma matchesIn_text: "\<not> matchesIn H target anc (DOMTextNode v t) q"
  by (cases q) (simp_all add: matchesIn_def)

lemma matchesIn_root:
  "matchesIn H target anc (DOMElementNode e cs) []
     \<longleftrightarrow> highlightIndex e \<noteq> None \<and> hashDomElementOf H (anc @ [branchEntry e]) e = target"
  by (simp add: matchesIn_def)

lemma matchesIn_child:
  "matchesIn H target anc (DOMElementNode e cs) (j # q)
     \<longleftrightarrow> j < length cs \<and> matchesIn H target (anc @ [branchEntry e]) (cs ! j) q"
  by (cases "j < length cs") (simp_all add: matchesIn_def split: option.splits DOMNode.splits)

lemma processNode_first_match:
  "(processNode H target anc node = None \<longrightarrow> (\<forall>q. \<not> matchesIn H target anc node q))
   \<and> (\<forall>p n. processNode H target anc node = Some (p, n)
         \<longrightarrow> matchesIn H target anc node p \<and> nodeAt node p = Some n
             \<and> (\<forall>q. matchesIn H target anc node q \<longrightarrow> p \<le> q))"
  and processChildren_first_match:
  "(processChildren H target path k cs = None
       \<longrightarrow> (\<forall>j < length cs. \<forall>q. \<not> matchesIn H target path (cs ! j) q))
   \<and> (\<forall>p n. processChildren H target path k cs = Some (p, n)
         \<longrightarrow> (\<exists>j q'. p = (k + j) # q' \<and> j < length cs
                 \<and> matchesIn H target path (cs ! j) q' \<and> nodeAt (cs ! j) q' = Some n
                 \<and> (\<forall>i < j. \<forall>q. \<not> matchesIn H target path (cs ! i) q)
                 \<and> (\<forall>q. matchesIn H target path (cs ! j) q \<longrightarrow> q' \<le> q)))"
proof (induction H target anc node and H target path k cs
       rule: processNode_processChildren.induct)
  case (1 H target anc e cs)
  let ?path = "anc @ [branchEntry e]"
  show ?case
  proof (cases "highlightIndex e \<noteq> None \<and> hashDomElementOf H ?path e = target")
    case True
    then show ?thesis by (simp add: matchesIn_root)
  next
    case False
    then have eq: "processNode H target anc (DOMElementNode e cs) = processChildren H target ?path 0 cs"
      by auto
    have noroot: "\<not> matchesIn H target anc (DOMElementNode e cs) []"
      using False by (simp add: matchesIn_root)
    note IH = "1.IH" [OF False]
    have none: "\<forall>q. \<not> matchesIn H target anc (DOMElementNode e cs) q"
      if "processChildren H target ?path 0 cs = None"
    proof
      fix q show "\<not> matchesIn H target anc (DOMElementNode e cs) q"
        using noroot IH that by (cases q) (auto simp: matchesIn_child)
    qed
    have some: "matchesIn H target anc (DOMElementNode e cs) p
                \<and> nodeAt (DOMElementNode e cs) p = Some n
                \<and> (\<forall>q. matchesIn H target anc (DOMElementNode e cs) q \<longrightarrow> p \<le> q)"
      if res: "processChildren H target ?path 0 cs = Some (p, n)" for p n
    proof -
      from IH res obtain j q' where
        j: "p = j # q'" "j < length cs" "matchesIn H target ?path (cs ! j) q'"
           "nodeAt (cs ! j) q' = Some n"
           "\<forall>i < j. \<forall>q. \<not> matchesIn H target ?path (cs ! i) q"
           "\<forall>q. matchesIn H target ?path (cs ! j) q \<longrightarrow> q' \<le> q"
        by auto
      have least: "p \<le> q" if m: "matchesIn H target anc (DOMElementNode e cs) q" for q
      proof (cases q)
        case Nil
        with m noroot show ?thesis by simp
      next
        case (Cons i q'')
        with m have i: "i < length cs" "matchesIn H target ?path (cs ! i) q''"
          by (simp_all add: matchesIn_child)
        with j(5) have "j \<le> i" by (meson not_le_imp_less)
        show ?thesis
        proof (cases "i = j")
          case True
          with i(2) j(6) have "q' \<le> q''" by simp
          with True Cons j(1) show ?thesis by simp
        next
          case False
          with \<open>j \<le> i\<close> have "j < i" by simp
          with Cons j(1) show ?thesis by simp
        qed
      qed
      from j(1-4) least show ?thesis by (simp add: matchesIn_child)
    qed
    from none some show ?thesis unfolding eq by blast
  qed
next
  case (2 H target anc v t)
  then show ?case by (simp add: matchesIn_text)
next
  case (3 H target path k)
  then show ?case by simp
next
  case (4 H target path k e cs' cs)
  let ?c = "DOMElementNode e cs'"
  show ?case
  proof (cases "processNode H target path ?c")
    case None
    note IH1 = "4.IH"(1) and IH2 = "4.IH"(2) [OF None]
    from IH1 None have nomatch: "\<forall>q. \<not> matchesIn H target path ?c q" by simp
    have eq: "processChildren H target path k (?c # cs) = processChildren H target path (Suc k) cs"
      using None by simp
    have none: "\<forall>j < length (?c # cs). \<forall>q. \<not> matchesIn H target path ((?c # cs) ! j) q"
      if r: "processChildren H target path (Suc k) cs = None"
    proof (intro allI impI)
      fix j q assume "j < length (?c # cs)"
      then show "\<not> matchesIn H target path ((?c # cs) ! j) q"
        using nomatch IH2 r by (cases j) auto
    qed
    have some: "\<exists>j q'. p = (k + j) # q' \<and> j < length (?c # cs)
                 \<and> matchesIn H target path ((?c # cs) ! j) q' \<and> nodeAt ((?c # cs) ! j) q' = Some n
                 \<and> (\<forall>i < j. \<forall>q. \<not> matchesIn H target path ((?c # cs) ! i) q)
                 \<and> (\<forall>q. matchesIn H target path ((?c # cs) ! j) q \<longrightarrow> q' \<le> q)"
      if r: "processChildren H target path (Suc k) cs = Some (p, n)" for p n
    proof -
      from IH2 r obtain j q' where
        j: "p = (Suc k + j) # q'" "j < length cs" "matchesIn H target path (cs ! j) q'"
           "nodeAt (cs ! j) q' = Some n"
           "\<forall>i < j. \<forall>q. \<not> matchesIn H target path (cs ! i) q"
           "\<forall>q. matchesIn H target path (cs ! j) q \<longrightarrow> q' \<le> q"
        by blast
      have before: "\<forall>i < Suc j. \<forall>q. \<not> matchesIn H target path ((?c # cs) ! i) q"
      proof (intro allI impI)
        fix i q assume "i < Suc j"
        then show "\<not> matchesIn H target path ((?c # cs) ! i) q"
          using nomatch j(5) by (cases i) auto
      qed
      show ?thesis
        using j(1-4,6) before by (intro exI [of _ "Suc j"] exI [of _ q']) simp
    qed
    from none some show ?thesis unfolding eq by blast
  next
    case (Some r)
    obtain pos found where r: "r = (pos, found)" by (cases r)
    from "4.IH"(1) Some r have
      m: "matchesIn H target path ?c pos" "nodeAt ?c pos = Some found"
         "\<forall>q. matchesIn H target path ?c q \<longrightarrow> pos \<le> q"
      by simp_all
    have "processChildren H target path k (?c # cs) = Some (k # pos, found)"
      using Some r by simp
    moreover have "\<exists>j q'. k # pos = (k + j) # q' \<and> j < length (?c # cs)
                 \<and> matchesIn H target path ((?c # cs) ! j) q' \<and> nodeAt ((?c # cs) ! j) q' = Some found
                 \<and> (\<forall>i < j. \<forall>q. \<not> matchesIn H target path ((?c # cs) ! i) q)
                 \<and> (\<forall>q. matchesIn H target path ((?c # cs) ! j) q \<longrightarrow> q' \<le> q)"
      using m by (intro exI [of _ 0] exI [of _ pos]) simp
    ultimately show ?thesis by simp
  qed
next
  case (5 H target path k v t cs)
  have eq: "processChildren H target path k (DOMTextNode v t # cs)
          = processChildren H target path (Suc k) cs"
    by simp
  have none: "\<forall>j < length (DOMTextNode v t # cs). \<forall>q. \<not> matchesIn H target path ((DOMTextNode v t # cs) ! j) q"
    if r: "processChildren H target path (Suc k) cs = None"
  proof (intro allI impI)
    fix j q assume "j < length (DOMTextNode v t # cs)"
    then show "\<not> matchesIn H target path ((DOMTextNode v t # cs) ! j) q"
      using "5.IH" r by (cases j) (auto simp: matchesIn_text)
  qed
  have some: "\<exists>j q'. p = (k + j) # q' \<and> j < length (DOMTextNode v t # cs)
                 \<and> matchesIn H target path ((DOMTextNode v t # cs) ! j) q'
                 \<and> nodeAt ((DOMTextNode v t # cs) ! j) q' = Some n
                 \<and> (\<forall>i < j. \<forall>q. \<not> matchesIn H target path ((DOMTextNode v t # cs) ! i) q)
                 \<and> (\<forall>q. matchesIn H target path ((DOMTextNode v t # cs) ! j) q \<longrightarrow> q' \<le> q)"
    if r: "processChildren H target path (Suc k) cs = Some (p, n)" for p n
  proof -
    from "5.IH" r obtain j q' where
      j: "p = (Suc k + j) # q'" "j < length cs" "matchesIn H target path (cs ! j) q'"
         "nodeAt (cs ! j) q' = Some n"
         "\<forall>i < j. \<forall>q. \<not> matchesIn H target path (cs ! i) q"
         "\<forall>q. matchesIn H target path (cs ! j) q \<longrightarrow> q' \<le> q"
      by blast
    have before: "\<forall>i < Suc j. \<forall>q. \<not> matchesIn H target path ((DOMTextNode v t # cs) ! i) q"
    proof (intro allI impI)
      fix i q assume "i < Suc j"
      then show "\<not> matchesIn H target path ((DOMTextNode v t # cs) ! i) q"
        using j(5) by (cases i) (auto simp: matchesIn_text)
    qed
    show ?thesis
      using j(1-4,6) before by (intro exI [of _ "Suc j"] exI [of _ q']) simp
  qed
  from none some show ?case unfolding eq by blast
qed

lemma converted_element_matches:
  assumes "nodeAt tree pos = Some (DOMElementNode e cs)" and "highlightIndex e \<noteq> None"
      and "convertDomElementToHistoryElement tree pos = Some hist"
  shows "matchesIn H (hashDomHistoryElement H hist) [] tree pos"
  using assms
  by (auto simp: convertDomElementToHistoryElement_def matchesIn_def hashDomHistoryElement_def
        hashDomElementOf_def)

lemma nodeAt_root_is_element:
  "nodeAt tree pos = Some (DOMElementNode e cs) \<Longrightarrow> \<exists>e0 cs0. tree = DOMElementNode e0 cs0"
  by (cases tree; cases pos) auto

text \<open>
  Claim C4, as the code has it. Let a history record be derived from an element of the
  tree that has a highlight index. Then \<open>findHistoryElementInTree\<close> returns an
  element of the tree: an indexed element whose three hashes equal those of the record,
  and the first such element in document order (positions compared
  lexicographically, a node before its descendants). It is the element the record was
  derived from whenever no other indexed element of the tree has the same three hashes.
  For any record, the search returns null exactly when no indexed element of the tree
  has the three hashes of the record.
\<close>

theorem findHistoryElementInTree_first_match:
  assumes el: "nodeAt tree pos = Some (DOMElementNode e cs)"
      and ix: "highlightIndex e \<noteq> None"
      and conv: "convertDomElementToHistoryElement tree pos = Some hist"
  shows "(\<exists>p n. findHistoryElementInTree H hist tree = Inr (Some (p, n))
            \<and> nodeAt tree p = Some n
            \<and> matchesIn H (hashDomHistoryElement H hist) [] tree p
            \<and> (\<forall>q. matchesIn H (hashDomHistoryElement H hist) [] tree q \<longrightarrow> p \<le> q)
            \<and> ((\<forall>q. matchesIn H (hashDomHistoryElement H hist) [] tree q \<longrightarrow> q = pos)
                  \<longrightarrow> p = pos \<and> n = DOMElementNode e cs))
       \<and> (\<forall>other. (findHistoryElementInTree H other tree = Inr None)
                   = (\<forall>q. \<not> matchesIn H (hashDomHistoryElement H other) [] tree q))"
proof -
  from nodeAt_root_is_element [OF el] obtain e0 cs0 where tree: "tree = DOMElementNode e0 cs0"
    by blast
  have find: "findHistoryElementInTree H h tree = Inr (processNode H (hashDomHistoryElement H h) [] tree)"
    for h by (simp add: findHistoryElementInTree_def tree)
  let ?target = "hashDomHistoryElement H hist"
  have self: "matchesIn H ?target [] tree pos"
    using converted_element_matches [OF el ix conv] .
  note first = processNode_first_match [of H ?target "[]" tree]
  from first self obtain p n where pn: "processNode H ?target [] tree = Some (p, n)"
    by (cases "processNode H ?target [] tree") auto
  with first have
    m: "matchesIn H ?target [] tree p" "nodeAt tree p = Some n"
       "\<forall>q. matchesIn H ?target [] tree q \<longrightarrow> p \<le> q"
    by simp_all
  have uniq: "p = pos \<and> n = DOMElementNode e cs"
    if "\<forall>q. matchesIn H ?target [] tree q \<longrightarrow> q = pos"
  proof -
    from that m(1) have "p = pos" by blast
    with m(2) el show ?thesis by simp
  qed
  have part1: "\<exists>p n. findHistoryElementInTree H hist tree = Inr (Some (p, n))
            \<and> nodeAt tree p = Some n
            \<and> matchesIn H ?target [] tree p
            \<and> (\<forall>q. matchesIn H ?target [] tree q \<longrightarrow> p \<le> q)
            \<and> ((\<forall>q. matchesIn H ?target [] tree q \<longrightarrow> q = pos)
                  \<longrightarrow> p = pos \<and> n = DOMElementNode e cs)"
    using pn m uniq by (simp add: find)
  have part2: "(findHistoryElementInTree H other tree = Inr None)
                   = (\<forall>q. \<not> matchesIn H (hashDomHistoryElement H other) [] tree q)" for other
  proof
    assume "findHistoryElementInTree H other tree = Inr None"
    then have "processNode H (hashDomHistoryElement H other) [] tree = None" by (simp add: find)
    with processNode_first_match [of H "hashDomHistoryElement H other" "[]" tree]
    show "\<forall>q. \<not> matchesIn H (hashDomHistoryElement H other) [] tree q" by blast
  next
    assume none: "\<forall>q. \<not> matchesIn H (hashDomHistoryElement H other) [] tree q"
    have "processNode H (hashDomHistoryElement H other) [] tree = None"
    proof (cases "processNode H (hashDomHistoryElement H other) [] tree")
      case None
      then show ?thesis .
    next
      case (Some r)
      with processNode_first_match [of H "hashDomHistoryElement H other" "[]" tree] none
      show ?thesis by (cases r) auto
    qed
    then show "findHistoryElementInTree H other tree = Inr None" by (simp add: find)
  qed
  from part1 part2 show ?thesis by blast
qed

lemma scenarioTree_record:
  "nodeAt scenarioTree [0]
     = Some (DOMElementNode (element ''button'' (Some 0) [(''type'', ''submit'')])
               [DOMTextNode True ''Submit''])
   \<and> convertDomElementToHistoryElement scenarioTree [0] = Some submitRecord
   \<and> findHistoryElementInTree plainHash submitRecord scenarioTree = Inr (Some ([0], submitButton))"
  by code_simp

text \<open>
  The tree of the specification's scenario: the record derived from the button is found
  again at the button.
\<close>

theorem findHistoryElementInTree_scenario_witness:
  "nodeAt scenarioTree [0] = Some submitButton
   \<and> highlightIndex (element ''button'' (Some 0) [(''type'', ''submit'')]) \<noteq> None
   \<and> convertDomElementToHistoryElement scenarioTree [0] = Some submitRecord
   \<and> findHistoryElementInTree plainHash submitRecord scenarioTree = Inr (Some ([0], submitButton))"
proof -
  let ?e = "element ''button'' (Some 0) [(''type'', ''submit'')]"
  let ?cs = "[DOMTextNode True ''Submit'']"
  let ?target = "hashDomHistoryElement plainHash submitRecord"
  note ev = scenarioTree_record
  from ev have el: "nodeAt scenarioTree [0] = Some (DOMElementNode ?e ?cs)" by simp
  have ix: "highlightIndex ?e \<noteq> None" by (simp add: element_def)
  from ev have conv: "convertDomElementToHistoryElement scenarioTree [0] = Some submitRecord"
    by simp
  have only: "\<forall>q. matchesIn plainHash ?target [] scenarioTree q \<longrightarrow> q = [0]"
  proof (intro allI impI)
    fix q assume m: "matchesIn plainHash ?target [] scenarioTree q"
    show "q = [0]"
    proof (cases q)
      case Nil
      with m show ?thesis by (simp add: scenarioTree_def matchesIn_root element_def)
    next
      case (Cons k ks)
      with m have k: "k < 2"
        and sub: "matchesIn plainHash ?target ([] @ [branchEntry (element ''body'' None [])])
                    ([submitButton, DOMTextNode True ''Hello''] ! k) ks"
        by (simp_all add: scenarioTree_def matchesIn_child)
      from k have "k = 0 \<or> k = 1" by auto
      then show ?thesis
      proof
        assume k0: "k = 0"
        show ?thesis
        proof (cases ks)
          case Nil
          with k0 Cons show ?thesis by simp
        next
          case (Cons j ks')
          with sub k0 show ?thesis
            by (auto simp: submitButton_def matchesIn_child matchesIn_text)
        qed
      next
        assume "k = 1"
        with sub show ?thesis by (simp add: matchesIn_text)
      qed
    qed
  qed
  from findHistoryElementInTree_first_match [OF el ix conv, of plainHash] only
  obtain p n where
    "findHistoryElementInTree plainHash submitRecord scenarioTree = Inr (Some (p, n))"
    "p = [0] \<and> n = DOMElementNode ?e ?cs"
    by blast
  then have "findHistoryElementInTree plainHash submitRecord scenarioTree
               = Inr (Some ([0], submitButton))"
    by (simp add: submitButton_def)
  with el ix conv show ?thesis by (simp add: submitButton_def)
qed

text \<open>
  The round trip fails in two ways. A record derived from an element without a
  highlight index is never found: the search compares indexed nodes only. And where two
  indexed elements agree in all three hashes, the record derived from the second one
  leads to the first one.
\<close>

theorem findHistoryElementInTree_round_trip_counterexample:
  "nodeAt plainDiv [] = Some plainDiv
   \<and> convertDomElementToHistoryElement plainDiv [] = Some plainDivRecord
   \<and> findHistoryElementInTree plainHash plainDivRecord plainDiv = Inr None
   \<and> nodeAt twinTree [1]
       = Some (DOMElementNode (element ''button'' (Some 0) []) [DOMTextNode True ''No''])
   \<and> convertDomElementToHistoryElement twinTree [1] = Some twinRecord
   \<and> findHistoryElementInTree plainHash twinRecord twinTree
       = Inr (Some ([0], DOMElementNode (element ''button'' (Some 0) [])
                           [DOMTextNode True ''Yes'']))"
  by code_simp

end
